theory Spec2Isabelle
  imports Main
begin

section \<open>Octopus: graceful serving of an HTTP server\<close>

text \<open>
  A shallow embedding of the Go package \<^verbatim>\<open>Octopus\<close>: listener acquisition
  (\<^verbatim>\<open>createListener\<close>, \<^verbatim>\<open>importListener\<close>, \<^verbatim>\<open>newListener\<close>), the
  signal dispatcher (\<^verbatim>\<open>handleSignals\<close>), the process forker (\<^verbatim>\<open>forkChild\<close>),
  graceful shutdown (\<^verbatim>\<open>shutDown\<close>) and the two entry points
  (\<^verbatim>\<open>GracefulServe\<close>, \<^verbatim>\<open>GracefulServeTLS\<close>).

  The package is effectful. Every function of the model takes the answers of the
  operating system and of the Go libraries as an explicit record (\<open>os\<close>), and returns,
  beside its result, the list of effects it requested, in program order. A log line is
  an effect. The receiver \<^verbatim>\<open>srv\<close> is passed in and, where the source assigns to it,
  returned updated. The signal dispatcher reads its input from a list: the signals
  delivered to the process, in order, each with the state of the system at the time it is
  delivered; the loop handles those of them that \<^verbatim>\<open>signal.Notify\<close> relays to its
  channel.
  Nothing is assumed about the answers of the system; a property that depends on them
  says so.
\<close>

subsection \<open>Constants\<close>

definition DefaultEnvVar :: string where
  "DefaultEnvVar = ''OCTOPUS_LISTENER''"

definition DefaultNetwork :: string where
  "DefaultNetwork = ''tcp''"

text \<open>A \<^verbatim>\<open>time.Duration\<close> counts nanoseconds; so do the instants of the model.\<close>

definition Second :: int where
  "Second = 1000000000"

definition DefaultAwaitTimeout :: int where
  "DefaultAwaitTimeout = 5 * Second"

subsection \<open>Data\<close>

text \<open>The signals: the five that \<^verbatim>\<open>handleSignals\<close> names, and any other one, by its name.\<close>

datatype signal = SIGHUP | SIGUSR1 | SIGUSR2 | SIGINT | SIGTERM | SIGOTHER string

text \<open>
  What a signal does to a process that has not asked for it with \<^verbatim>\<open>signal.Notify\<close>:
  its default action ends the process, or the signal has no effect on the program.
\<close>

datatype default_action = Terminate | Ignore

text \<open>
  What an open descriptor refers to. A listening stream socket is identified by the
  kernel object behind it, which duplicated descriptors share.
\<close>

datatype sock_kind = TCP | Unix

datatype file_object = StdStream nat | Socket sock_kind nat | NotASocket | NotOpen

text \<open>An \<^verbatim>\<open>*os.File\<close>: its name and the object its descriptor refers to.\<close>

datatype os_file = File (fname: string) (fobj: file_object)

text \<open>
  A \<^verbatim>\<open>net.Listener\<close>: the two concrete kinds \<^verbatim>\<open>createListenerFile\<close> switches on,
  and any other implementation of the interface.
\<close>

datatype listener = TCPListener nat | UnixListener nat | OtherListener

datatype error =
    UnmarshalFailed string
  | ListenerNotFound string
  | ListenerFileFailed string
  | UnsupportedListener
  | KillMasterFailed int error
  | LibError string

record listenerDescriptor =
  ldAddr :: string
  FD :: int
  Name :: string

text \<open>The caller's \<^verbatim>\<open>http.Server\<close>; only its address is read by the package.\<close>

record http_Server =
  Server_Addr :: string

record GracefulServer =
  Addr :: string
  PID :: int
  Server :: http_Server
  Listener :: "listener option"

text \<open>The attributes \<^verbatim>\<open>forkChild\<close> passes to \<^verbatim>\<open>os.StartProcess\<close>.\<close>

record ProcAttr =
  Dir :: string
  Env :: "string list"
  Files :: "os_file list"

text \<open>The log lines of the package, one constructor per format string.\<close>

datatype log_entry =
    FatalCreateListener error
  | InfoStarted int
  | FatalShutDown error
  | InfoShutDown
  | InfoDeadline int
  | InfoImported
  | InfoImportFailed error
  | InfoCreated string
  | InfoSignal int signal
  | ErrFork error
  | InfoNotHooked signal
  | InfoForked int
  | InfoMasterKilled int
  | InfoMasterAlive int

text \<open>
  The effects, in the order the program requests them. The first four constructors
  mark the entry into a function of the package; the others are calls into the Go
  libraries and the operating system.
\<close>

datatype event =
    Enter_newListener
  | Enter_importListener string
  | Enter_forkChild bool int
  | Enter_shutDown
  | E_Log log_entry
  | E_Listen string string
  | E_NewFile int string
  | E_FileListener os_file
  | E_FileClose os_file
  | E_StartProcess string "string list" ProcAttr
  | E_Kill int signal
  | E_ServerShutdown http_Server int
  | E_Cancel
  | E_ServerClose http_Server
  | E_GoServe http_Server "listener option"
  | E_GoServeTLS http_Server "listener option" string string
  | E_Notify "signal list"
  | E_Exit int

text \<open>
  The answers of the environment: the process's environment variables and descriptor
  table, and the result of each library or system call the package makes.
\<close>

record os =
  Getenv :: "string \<Rightarrow> string"
  fd_table :: "nat \<Rightarrow> file_object option"
  Listen :: "string \<Rightarrow> string \<Rightarrow> error + nat"
  ListenerFile :: "listener \<Rightarrow> error + string"
  Environ :: "string list"
  Executable :: "error + string"
  filepath_Dir :: "string \<Rightarrow> string"
  StartProcess :: "string \<Rightarrow> string list \<Rightarrow> ProcAttr \<Rightarrow> error + int"
  Kill :: "int \<Rightarrow> signal \<Rightarrow> error option"
  DefaultAction :: "signal \<Rightarrow> default_action"
  Getpid :: int
  Now :: int
  ServerShutdown :: "http_Server \<Rightarrow> int \<Rightarrow> error option"
  Stdin :: os_file
  Stdout :: os_file
  Stderr :: os_file

text \<open>
  How a call of the package ends: it returns, the process exits (\<^verbatim>\<open>log.Fatalf\<close>),
  the process is ended by a signal it has not asked for, or the call is still blocked on
  the signal channel when the signals delivered so far are used up.
\<close>

datatype 'a outcome = Returned 'a | Exited int | Killed signal | Waiting

subsection \<open>Library: UTF-8 and the JSON encoder\<close>

text \<open>
  \<^verbatim>\<open>encoding/json\<close> and \<^verbatim>\<open>unicode/utf8\<close> are Go libraries, not code of the
  package; they are modelled here because the handoff payload is what
  \<^verbatim>\<open>json.Marshal\<close> writes and what \<^verbatim>\<open>json.Unmarshal\<close> reads. A Go string is
  a sequence of bytes, a \<open>string\<close> of the model.
\<close>

definition dquote :: char where
  "dquote = CHR 0x22"

definition bslash :: char where
  "bslash = CHR 0x5C"

definition RuneError :: nat where
  "RuneError = 0xFFFD"

text \<open>
  \<^verbatim>\<open>utf8.DecodeRune\<close> on the byte values of a string: the code point and the width of
  the first encoding, or \<open>(RuneError, 1)\<close> when the bytes do not start with a
  well-formed one.
\<close>

definition acceptRange :: "nat \<Rightarrow> nat \<times> nat" where
  "acceptRange p0 =
     (if p0 = 0xE0 then (0xA0, 0xBF)
      else if p0 = 0xED then (0x80, 0x9F)
      else if p0 = 0xF0 then (0x90, 0xBF)
      else if p0 = 0xF4 then (0x80, 0x8F)
      else (0x80, 0xBF))"

definition runeSize :: "nat \<Rightarrow> nat" where
  "runeSize p0 =
     (if p0 < 0x80 then 1
      else if 0xC2 \<le> p0 \<and> p0 \<le> 0xDF then 2
      else if 0xE0 \<le> p0 \<and> p0 \<le> 0xEF then 3
      else if 0xF0 \<le> p0 \<and> p0 \<le> 0xF4 then 4
      else 0)"

definition contByte :: "nat \<Rightarrow> bool" where
  "contByte b \<longleftrightarrow> 0x80 \<le> b \<and> b \<le> 0xBF"

fun utf8_DecodeRune :: "nat list \<Rightarrow> nat \<times> nat" where
  "utf8_DecodeRune [] = (RuneError, 0)"
| "utf8_DecodeRune (p0 # p) =
     (let sz = runeSize p0 in
      if sz = 1 then (p0, 1)
      else if sz = 0 \<or> length (p0 # p) < sz then (RuneError, 1)
      else
        (let b1 = p ! 0 in
         if b1 < fst (acceptRange p0) \<or> snd (acceptRange p0) < b1 then (RuneError, 1)
         else if sz = 2 then ((p0 mod 32) * 64 + b1 mod 64, 2)
         else
           (let b2 = p ! 1 in
            if \<not> contByte b2 then (RuneError, 1)
            else if sz = 3 then ((p0 mod 16) * 4096 + (b1 mod 64) * 64 + b2 mod 64, 3)
            else
              (let b3 = p ! 2 in
               if \<not> contByte b3 then (RuneError, 1)
               else ((p0 mod 8) * 262144 + (b1 mod 64) * 4096 + (b2 mod 64) * 64
                       + b3 mod 64, 4)))))"

text \<open>\<^verbatim>\<open>utf8.EncodeRune\<close>: the bytes of a code point; a surrogate or a value beyond
  U+10FFFF is written as U+FFFD.\<close>

definition utf8_EncodeRune :: "nat \<Rightarrow> nat list" where
  "utf8_EncodeRune r =
     (if r \<le> 0x7F then [r]
      else if r \<le> 0x7FF then [0xC0 + r div 64, 0x80 + r mod 64]
      else if r > 0x10FFFF \<or> (0xD800 \<le> r \<and> r \<le> 0xDFFF) then [0xEF, 0xBF, 0xBD]
      else if r \<le> 0xFFFF then
        [0xE0 + r div 4096, 0x80 + (r div 64) mod 64, 0x80 + r mod 64]
      else [0xF0 + r div 262144, 0x80 + (r div 4096) mod 64, 0x80 + (r div 64) mod 64,
            0x80 + r mod 64])"

definition hex :: string where
  "hex = ''0123456789abcdef''"

text \<open>The bytes the encoder copies unchanged (\<^verbatim>\<open>htmlSafeSet\<close>: \<^verbatim>\<open>json.Marshal\<close>
  escapes for HTML).\<close>

definition htmlSafe :: "char \<Rightarrow> bool" where
  "htmlSafe c \<longleftrightarrow>
     (0x20::nat) \<le> of_char c \<and> of_char c < (0x80::nat) \<and> c \<noteq> dquote \<and> c \<noteq> bslash
       \<and> c \<noteq> CHR ''&'' \<and> c \<noteq> CHR ''<'' \<and> c \<noteq> CHR ''>''"

definition escape_byte :: "char \<Rightarrow> string" where
  "escape_byte c =
     (if c = bslash \<or> c = dquote then [bslash, c]
      else if c = CHR 0x0A then [bslash, CHR ''n'']
      else if c = CHR 0x0D then [bslash, CHR ''r'']
      else if c = CHR 0x09 then [bslash, CHR ''t'']
      else [bslash, CHR ''u'', CHR ''0'', CHR ''0'',
            hex ! (of_char c div 16), hex ! (of_char c mod 16)])"

text \<open>
  The body of \<^verbatim>\<open>encodeState.string\<close>: the loop over the bytes of \<open>s\<close>. An ASCII
  byte outside \<^verbatim>\<open>htmlSafeSet\<close> is escaped: the quote and the backslash by a
  backslash, newline, carriage return and tab by their letters, any other one as
  \<^verbatim>\<open>\u00XX\<close> (Go 1.22 and later write backspace and form feed by their letters,
  which the decoder reads as the same bytes). A byte that starts no well-formed UTF-8
  encoding becomes \<^verbatim>\<open>\ufffd\<close>; U+2028 and U+2029 are escaped; any other
  encoding is copied.
\<close>

fun encode_chars :: "string \<Rightarrow> string" where
  "encode_chars [] = []"
| "encode_chars (c # cs) =
     (if of_char c < (0x80::nat) then
        (if htmlSafe c then [c] else escape_byte c) @ encode_chars cs
      else
        (let (r, size) = utf8_DecodeRune (map of_char (c # cs)) in
         if r = RuneError \<and> size = 1 then
           [bslash] @ ''ufffd'' @ encode_chars cs
         else if r = 0x2028 \<or> r = 0x2029 then
           [bslash] @ ''u202'' @ [hex ! (r mod 16)] @ encode_chars (drop (size - 1) cs)
         else c # take (size - 1) cs @ encode_chars (drop (size - 1) cs)))"

definition encode_string :: "string \<Rightarrow> string" where
  "encode_string s = [dquote] @ encode_chars s @ [dquote]"

text \<open>\<^verbatim>\<open>strconv.AppendInt\<close> in base 10.\<close>

fun dec_nat :: "nat \<Rightarrow> string" where
  "dec_nat n =
     (if n < 10 then [''0123456789'' ! n]
      else dec_nat (n div 10) @ [''0123456789'' ! (n mod 10)])"

declare dec_nat.simps [simp del]

definition encode_int :: "int \<Rightarrow> string" where
  "encode_int i = (if i < 0 then ''-'' @ dec_nat (nat (- i)) else dec_nat (nat i))"

text \<open>
  \<^verbatim>\<open>json.Marshal\<close> of a \<^verbatim>\<open>listenerDescriptor\<close>: the fields in declaration order
  under the keys of their tags. A struct of two strings and an integer always encodes.
\<close>

definition json_Marshal :: "listenerDescriptor \<Rightarrow> error + string" where
  "json_Marshal l =
     Inr (''{'' @ encode_string ''addr'' @ '':'' @ encode_string (ldAddr l)
          @ '','' @ encode_string ''FD'' @ '':'' @ encode_int (FD l)
          @ '','' @ encode_string ''Name'' @ '':'' @ encode_string (Name l) @ ''}'')"

subsection \<open>Library: the JSON decoder\<close>

datatype json =
    JNull
  | JBool bool
  | JNumber string
  | JString string
  | JArray "json list"
  | JObject "(string \<times> json) list"

datatype token =
    TLBrace | TRBrace | TLBrack | TRBrack | TColon | TComma
  | TStr string | TNum string | TTrue | TFalse | TNull

definition hexval :: "char \<Rightarrow> nat option" where
  "hexval c =
     (let n = (of_char c :: nat) in
      if 0x30 \<le> n \<and> n \<le> 0x39 then Some (n - 0x30)
      else if 0x61 \<le> n \<and> n \<le> 0x66 then Some (n - 0x61 + 10)
      else if 0x41 \<le> n \<and> n \<le> 0x46 then Some (n - 0x41 + 10)
      else None)"

text \<open>\<^verbatim>\<open>getu4\<close>: the code unit of a \<^verbatim>\<open>\uXXXX\<close> escape at the head of the text.\<close>

fun getu4 :: "string \<Rightarrow> nat option" where
  "getu4 (b # u # h1 # h2 # h3 # h4 # _) =
     (if b \<noteq> bslash \<or> u \<noteq> CHR ''u'' then None
      else
        (case (hexval h1, hexval h2, hexval h3, hexval h4) of
           (Some a, Some b, Some c, Some d) \<Rightarrow> Some (((a * 16 + b) * 16 + c) * 16 + d)
         | _ \<Rightarrow> None))"
| "getu4 _ = None"

definition IsSurrogate :: "nat \<Rightarrow> bool" where
  "IsSurrogate r \<longleftrightarrow> 0xD800 \<le> r \<and> r < 0xE000"

definition utf16_DecodeRune :: "nat \<Rightarrow> nat \<Rightarrow> nat" where
  "utf16_DecodeRune r1 r2 =
     (if 0xD800 \<le> r1 \<and> r1 < 0xDC00 \<and> 0xDC00 \<le> r2 \<and> r2 < 0xE000
      then (r1 - 0xD800) * 1024 + (r2 - 0xDC00) + 0x10000
      else RuneError)"

definition simple_escape :: "char \<Rightarrow> char option" where
  "simple_escape e =
     (if e = dquote \<or> e = bslash \<or> e = CHR ''/'' then Some e
      else if e = CHR ''b'' then Some (CHR 0x08)
      else if e = CHR ''f'' then Some (CHR 0x0C)
      else if e = CHR ''n'' then Some (CHR 0x0A)
      else if e = CHR ''r'' then Some (CHR 0x0D)
      else if e = CHR ''t'' then Some (CHR 0x09)
      else None)"

definition rune_bytes :: "nat \<Rightarrow> string" where
  "rune_bytes r = map char_of (utf8_EncodeRune r)"

definition prepend :: "string \<Rightarrow> (string \<times> string) option \<Rightarrow> (string \<times> string) option" where
  "prepend xs r = (case r of None \<Rightarrow> None | Some (s, rest) \<Rightarrow> Some (xs @ s, rest))"

fun unquote :: "string \<Rightarrow> (string \<times> string) option" where
  "unquote [] = None"
| "unquote (c # cs) =
     (if c = dquote then Some ([], cs)
      else if c = bslash then
        (case cs of
           [] \<Rightarrow> None
         | e # cs' \<Rightarrow>
             if e = CHR ''u'' then
               (case getu4 (c # cs) of
                  None \<Rightarrow> None
                | Some rr \<Rightarrow>
                    if IsSurrogate rr then
                      (case getu4 (drop 4 cs') of
                         None \<Rightarrow> prepend (rune_bytes RuneError) (unquote (drop 4 cs'))
                       | Some rr1 \<Rightarrow>
                           if utf16_DecodeRune rr rr1 \<noteq> RuneError
                           then prepend (rune_bytes (utf16_DecodeRune rr rr1))
                                  (unquote (drop 10 cs'))
                           else prepend (rune_bytes RuneError) (unquote (drop 4 cs')))
                    else prepend (rune_bytes rr) (unquote (drop 4 cs')))
             else
               (case simple_escape e of
                  None \<Rightarrow> None
                | Some b \<Rightarrow> prepend [b] (unquote cs')))
      else if of_char c < (0x20::nat) then None
      else if of_char c < (0x80::nat) then prepend [c] (unquote cs)
      else
        (let (rr, size) = utf8_DecodeRune (map of_char (c # cs)) in
         prepend (rune_bytes rr) (unquote (drop (size - 1) cs))))"


text \<open>A number literal, by the grammar of the scanner, and the text after it.\<close>

definition isDigit :: "char \<Rightarrow> bool" where
  "isDigit c \<longleftrightarrow> (0x30::nat) \<le> of_char c \<and> of_char c \<le> (0x39::nat)"

definition lex_exp :: "string \<Rightarrow> string \<Rightarrow> (string \<times> string) option" where
  "lex_exp lit s =
     (case s of
        [] \<Rightarrow> Some (lit, s)
      | e # r \<Rightarrow>
          if e = CHR ''e'' \<or> e = CHR ''E'' then
            (let (sg, r') =
               (case r of
                  [] \<Rightarrow> ([], r)
                | c # r'' \<Rightarrow> if c = CHR ''+'' \<or> c = CHR ''-'' then ([c], r'') else ([], r))
             in if takeWhile isDigit r' = [] then None
                else Some (lit @ [e] @ sg @ takeWhile isDigit r', dropWhile isDigit r'))
          else Some (lit, s))"

definition lex_frac :: "string \<Rightarrow> string \<Rightarrow> (string \<times> string) option" where
  "lex_frac lit s =
     (case s of
        [] \<Rightarrow> lex_exp lit s
      | d # r \<Rightarrow>
          if d = CHR ''.'' then
            (if takeWhile isDigit r = [] then None
             else lex_exp (lit @ ''.'' @ takeWhile isDigit r) (dropWhile isDigit r))
          else lex_exp lit s)"

definition lex_digits :: "string \<Rightarrow> string \<Rightarrow> (string \<times> string) option" where
  "lex_digits sign s =
     (case s of
        [] \<Rightarrow> None
      | d # r \<Rightarrow>
          if d = CHR ''0'' then lex_frac (sign @ ''0'') r
          else if isDigit d then
            lex_frac (sign @ d # takeWhile isDigit r) (dropWhile isDigit r)
          else None)"

definition lex_number :: "string \<Rightarrow> (string \<times> string) option" where
  "lex_number s =
     (case s of
        [] \<Rightarrow> None
      | c # r \<Rightarrow> if c = CHR ''-'' then lex_digits ''-'' r else lex_digits [] s)"

definition isSpace :: "char \<Rightarrow> bool" where
  "isSpace c \<longleftrightarrow> c = CHR '' '' \<or> c = CHR 0x09 \<or> c = CHR 0x0D \<or> c = CHR 0x0A"

definition cons_tok :: "token \<Rightarrow> token list option \<Rightarrow> token list option" where
  "cons_tok t r = (case r of None \<Rightarrow> None | Some ts \<Rightarrow> Some (t # ts))"


lemma prepend_SomeD: "prepend xs r = Some (v, rest) \<Longrightarrow> \<exists>v'. r = Some (v', rest)"
  by (auto simp: prepend_def split: option.splits)

lemma unquote_shorter: "unquote s = Some (v, rest) \<Longrightarrow> length rest \<le> length s"
proof (induction s arbitrary: v rest rule: unquote.induct)
  case 1
  then show ?case by simp
next
  case (2 c cs)
  show ?case
  proof (cases "c = dquote")
    case True
    with "2.prems" show ?thesis by simp
  next
    case nq: False
    show ?thesis
    proof (cases "c = bslash")
      case True
      show ?thesis
      proof (cases cs)
        case Nil
        with "2.prems" nq True show ?thesis by simp
      next
        case (Cons e cs')
        show ?thesis
        proof (cases "e = CHR ''u''")
          case eu: True
          show ?thesis
          proof (cases "getu4 (c # cs)")
            case None
            with "2.prems" nq True Cons eu show ?thesis by simp
          next
            case (Some rr)
            show ?thesis
            proof (cases "IsSurrogate rr")
              case sur: True
              show ?thesis
              proof (cases "getu4 (drop 4 cs')")
                case None
                with "2.prems" nq True Cons eu Some sur
                obtain v' where "unquote (drop 4 cs') = Some (v', rest)"
                  by (auto dest: prepend_SomeD)
                from "2.IH"(1)[OF nq True Cons eu Some sur None this]
                show ?thesis using Cons by simp
              next
                case s1: (Some rr1)
                show ?thesis
                proof (cases "utf16_DecodeRune rr rr1 \<noteq> RuneError")
                  case True
                  with "2.prems" nq \<open>c = bslash\<close> Cons eu Some sur s1
                  obtain v' where "unquote (drop 10 cs') = Some (v', rest)"
                    by (auto dest: prepend_SomeD)
                  from "2.IH"(2)[OF nq \<open>c = bslash\<close> Cons eu Some sur s1 True this]
                  show ?thesis using Cons by simp
                next
                  case False
                  with "2.prems" nq \<open>c = bslash\<close> Cons eu Some sur s1
                  obtain v' where "unquote (drop 4 cs') = Some (v', rest)"
                    by (auto dest: prepend_SomeD)
                  from "2.IH"(3)[OF nq \<open>c = bslash\<close> Cons eu Some sur s1 False this]
                  show ?thesis using Cons by simp
                qed
              qed
            next
              case False
              with "2.prems" nq True Cons eu Some
              obtain v' where "unquote (drop 4 cs') = Some (v', rest)"
                by (auto dest: prepend_SomeD)
              from "2.IH"(4)[OF nq True Cons eu Some False this]
              show ?thesis using Cons by simp
            qed
          qed
        next
          case neu: False
          show ?thesis
          proof (cases "simple_escape e")
            case None
            with "2.prems" nq True Cons neu show ?thesis by simp
          next
            case (Some b)
            with "2.prems" nq True Cons neu
            obtain v' where "unquote cs' = Some (v', rest)"
              by (auto dest: prepend_SomeD)
            from "2.IH"(5)[OF nq True Cons neu Some this]
            show ?thesis using Cons by simp
          qed
        qed
      qed
    next
      case nb: False
      show ?thesis
      proof (cases "of_char c < (0x20::nat)")
        case True
        with "2.prems" nq nb show ?thesis by simp
      next
        case n20: False
        show ?thesis
        proof (cases "of_char c < (0x80::nat)")
          case True
          with "2.prems" nq nb n20
          obtain v' where "unquote cs = Some (v', rest)"
            by (auto dest: prepend_SomeD)
          from "2.IH"(6)[OF nq nb n20 True this]
          show ?thesis by simp
        next
          case False
          obtain rr size where d: "utf8_DecodeRune (map of_char (c # cs)) = (rr, size)"
            by (cases "utf8_DecodeRune (map of_char (c # cs))")
          with "2.prems" nq nb n20 False
          obtain v' where "unquote (drop (size - 1) cs) = Some (v', rest)"
            by (auto dest: prepend_SomeD)
          from "2.IH"(7)[OF nq nb n20 False d[symmetric] refl this]
          show ?thesis by simp
        qed
      qed
    qed
  qed
qed


lemma lex_exp_shorter: "lex_exp lit s = Some (v, rest) \<Longrightarrow> length rest \<le> length s"
  by (auto simp: lex_exp_def Let_def split: list.splits if_splits
        intro: le_trans[OF length_dropWhile_le] le_SucI)

lemma lex_frac_shorter: "lex_frac lit s = Some (v, rest) \<Longrightarrow> length rest \<le> length s"
  by (auto simp: lex_frac_def split: list.splits if_splits
        dest!: lex_exp_shorter intro: le_trans[OF _ length_dropWhile_le] le_SucI)

lemma lex_digits_shorter: "lex_digits sg s = Some (v, rest) \<Longrightarrow> length rest < length s"
  by (auto simp: lex_digits_def split: list.splits if_splits
        dest!: lex_frac_shorter intro: le_trans[OF _ length_dropWhile_le] le_imp_less_Suc)

lemma lex_number_shorter: "lex_number s = Some (v, rest) \<Longrightarrow> length rest < length s"
  by (auto simp: lex_number_def split: list.splits if_splits
        dest!: lex_digits_shorter)

function lex :: "string \<Rightarrow> token list option" where
  "lex [] = Some []"
| "lex (c # cs) =
     (if isSpace c then lex cs
      else if c = CHR ''{'' then cons_tok TLBrace (lex cs)
      else if c = CHR ''}'' then cons_tok TRBrace (lex cs)
      else if c = CHR ''['' then cons_tok TLBrack (lex cs)
      else if c = CHR '']'' then cons_tok TRBrack (lex cs)
      else if c = CHR '':'' then cons_tok TColon (lex cs)
      else if c = CHR '','' then cons_tok TComma (lex cs)
      else if c = dquote then
        (case unquote cs of
           None \<Rightarrow> None
         | Some (s, rest) \<Rightarrow> cons_tok (TStr s) (lex rest))
      else if c = CHR ''-'' \<or> isDigit c then
        (case lex_number (c # cs) of
           None \<Rightarrow> None
         | Some (lit, rest) \<Rightarrow> cons_tok (TNum lit) (lex rest))
      else if c = CHR ''t'' \<and> take 3 cs = ''rue'' then cons_tok TTrue (lex (drop 3 cs))
      else if c = CHR ''f'' \<and> take 4 cs = ''alse'' then cons_tok TFalse (lex (drop 4 cs))
      else if c = CHR ''n'' \<and> take 3 cs = ''ull'' then cons_tok TNull (lex (drop 3 cs))
      else None)"
  apply pat_completeness
  apply simp_all
  done
termination
proof (relation "measure length", goal_cases)
  case 1 show ?case by simp
next
  case 2 then show ?case by simp
next
  case 3 then show ?case by simp
next
  case 4 then show ?case by simp
next
  case 5 then show ?case by simp
next
  case 6 then show ?case by simp
next
  case 7 then show ?case by simp
next
  case 8 then show ?case by simp
next
  case (9 c cs x2 x y)
  then show ?case using unquote_shorter[of cs x y] by simp
next
  case (10 c cs x2 x y)
  then show ?case using lex_number_shorter[of "c # cs" x y] by simp
next
  case 11 then show ?case by simp
next
  case 12 then show ?case by simp
next
  case 13 then show ?case by simp
qed


text \<open>
  The parser: the scanner's states and its stack of open containers, over the tokens.
\<close>

datatype frame = FArray "json list" | FObject "(string \<times> json) list" "string option"

datatype pstate =
    BeginValue | BeginValueOrEmpty | BeginStringOrEmpty | BeginString
  | EndKey | EndValue | EndTop json

definition maxNestingDepth :: nat where
  "maxNestingDepth = 10000"

fun endValue :: "json \<Rightarrow> frame list \<Rightarrow> (pstate \<times> frame list) option" where
  "endValue v [] = Some (EndTop v, [])"
| "endValue v (FArray xs # st) = Some (EndValue, FArray (xs @ [v]) # st)"
| "endValue v (FObject ps (Some k) # st) = Some (EndValue, FObject (ps @ [(k, v)]) None # st)"
| "endValue v (FObject ps None # st) = None"

definition pushFrame :: "pstate \<Rightarrow> frame \<Rightarrow> frame list \<Rightarrow> (pstate \<times> frame list) option" where
  "pushFrame s f st = (if length st < maxNestingDepth then Some (s, f # st) else None)"

fun beginValue :: "token \<Rightarrow> frame list \<Rightarrow> (pstate \<times> frame list) option" where
  "beginValue TLBrace st = pushFrame BeginStringOrEmpty (FObject [] None) st"
| "beginValue TLBrack st = pushFrame BeginValueOrEmpty (FArray []) st"
| "beginValue (TStr s) st = endValue (JString s) st"
| "beginValue (TNum n) st = endValue (JNumber n) st"
| "beginValue TTrue st = endValue (JBool True) st"
| "beginValue TFalse st = endValue (JBool False) st"
| "beginValue TNull st = endValue JNull st"
| "beginValue _ st = None"

fun pstep :: "pstate \<times> frame list \<Rightarrow> token \<Rightarrow> (pstate \<times> frame list) option" where
  "pstep (BeginValue, st) t = beginValue t st"
| "pstep (BeginValueOrEmpty, FArray xs # st) TRBrack = endValue (JArray xs) st"
| "pstep (BeginValueOrEmpty, st) t = beginValue t st"
| "pstep (BeginStringOrEmpty, FObject ps None # st) TRBrace = endValue (JObject ps) st"
| "pstep (BeginStringOrEmpty, FObject ps None # st) (TStr k) =
     Some (EndKey, FObject ps (Some k) # st)"
| "pstep (BeginString, FObject ps None # st) (TStr k) =
     Some (EndKey, FObject ps (Some k) # st)"
| "pstep (EndKey, st) TColon = Some (BeginValue, st)"
| "pstep (EndValue, FArray xs # st) TComma = Some (BeginValue, FArray xs # st)"
| "pstep (EndValue, FArray xs # st) TRBrack = endValue (JArray xs) st"
| "pstep (EndValue, FObject ps None # st) TComma = Some (BeginString, FObject ps None # st)"
| "pstep (EndValue, FObject ps None # st) TRBrace = endValue (JObject ps) st"
| "pstep _ _ = None"

fun prun :: "pstate \<times> frame list \<Rightarrow> token list \<Rightarrow> (pstate \<times> frame list) option" where
  "prun s [] = Some s"
| "prun s (t # ts) = (case pstep s t of None \<Rightarrow> None | Some s' \<Rightarrow> prun s' ts)"

definition parse_json :: "string \<Rightarrow> json option" where
  "parse_json data =
     (case lex data of
        None \<Rightarrow> None
      | Some ts \<Rightarrow>
          (case prun (BeginValue, []) ts of
             Some (EndTop v, []) \<Rightarrow> Some v
           | _ \<Rightarrow> None))"

text \<open>
  Storing a parsed value into a \<^verbatim>\<open>listenerDescriptor\<close>. A key selects the field whose
  name it equals when letter case is ignored; a key that selects none is skipped;
  \<^verbatim>\<open>null\<close> leaves a field as it is; a value of the wrong kind, or an integer that
  \<^verbatim>\<open>strconv.ParseInt\<close> refuses, is an error.
\<close>

definition toLower :: "char \<Rightarrow> char" where
  "toLower c =
     (if (0x41::nat) \<le> of_char c \<and> of_char c \<le> (0x5A::nat)
      then char_of (of_char c + (0x20::nat)) else c)"

definition equalFold :: "string \<Rightarrow> string \<Rightarrow> bool" where
  "equalFold s t \<longleftrightarrow> map toLower s = map toLower t"

definition digitsValue :: "string \<Rightarrow> int" where
  "digitsValue ds = foldl (\<lambda>n d. n * 10 + (of_char d - 0x30)) 0 ds"

definition ParseInt :: "string \<Rightarrow> int option" where
  "ParseInt lit =
     (let (neg, ds) = (case lit of [] \<Rightarrow> (False, lit)
                       | c # r \<Rightarrow> if c = CHR ''-'' then (True, r) else (False, lit)) in
      if ds = [] \<or> \<not> list_all isDigit ds then None
      else
        (let n = (if neg then - digitsValue ds else digitsValue ds) in
         if - (2 ^ 63) \<le> n \<and> n < 2 ^ 63 then Some n else None))"

definition storeField :: "listenerDescriptor option \<Rightarrow> string \<times> json \<Rightarrow> listenerDescriptor option"
where
  "storeField acc kv =
     (case acc of
        None \<Rightarrow> None
      | Some fl \<Rightarrow>
          (let (key, v) = kv in
           if equalFold ''addr'' key then
             (case v of JString s \<Rightarrow> Some (fl\<lparr>ldAddr := s\<rparr>) | JNull \<Rightarrow> Some fl | _ \<Rightarrow> None)
           else if equalFold ''FD'' key then
             (case v of
                JNumber lit \<Rightarrow>
                  (case ParseInt lit of None \<Rightarrow> None | Some n \<Rightarrow> Some (fl\<lparr>FD := n\<rparr>))
              | JNull \<Rightarrow> Some fl
              | _ \<Rightarrow> None)
           else if equalFold ''Name'' key then
             (case v of JString s \<Rightarrow> Some (fl\<lparr>Name := s\<rparr>) | JNull \<Rightarrow> Some fl | _ \<Rightarrow> None)
           else Some fl))"

text \<open>
  \<^verbatim>\<open>json.Unmarshal(data, &fl)\<close> for a zero \<^verbatim>\<open>fl\<close>: malformed JSON is an error; an
  object is stored field by field; \<^verbatim>\<open>null\<close> stores nothing; any other value is an
  error.
\<close>

definition json_Unmarshal :: "string \<Rightarrow> error + listenerDescriptor" where
  "json_Unmarshal data =
     (case parse_json data of
        None \<Rightarrow> Inl (LibError ''json: invalid input'')
      | Some (JObject kvs) \<Rightarrow>
          (case foldl storeField (Some \<lparr>ldAddr = [], FD = 0, Name = []\<rparr>) kvs of
             None \<Rightarrow> Inl (LibError ''json: cannot unmarshal value into field'')
           | Some fl \<Rightarrow> Inr fl)
      | Some JNull \<Rightarrow> Inr \<lparr>ldAddr = [], FD = 0, Name = []\<rparr>
      | Some _ \<Rightarrow> Inl (LibError ''json: cannot unmarshal into listenerDescriptor''))"

subsection \<open>Library: valid UTF-8\<close>

text \<open>
  \<^verbatim>\<open>utf8.ValidString\<close>, and the string with every byte that starts no well-formed
  encoding replaced by U+FFFD, which is what the JSON encoder and decoder make of a
  string between them.
\<close>

fun toValidUTF8 :: "string \<Rightarrow> string" where
  "toValidUTF8 [] = []"
| "toValidUTF8 (c # cs) =
     (if of_char c < (0x80::nat) then c # toValidUTF8 cs
      else
        (let (r, size) = utf8_DecodeRune (map of_char (c # cs)) in
         if r = RuneError \<and> size = 1 then rune_bytes RuneError @ toValidUTF8 cs
         else c # take (size - 1) cs @ toValidUTF8 (drop (size - 1) cs)))"

fun utf8_ValidString :: "string \<Rightarrow> bool" where
  "utf8_ValidString [] = True"
| "utf8_ValidString (c # cs) =
     (if of_char c < (0x80::nat) then utf8_ValidString cs
      else
        (let (r, size) = utf8_DecodeRune (map of_char (c # cs)) in
         \<not> (r = RuneError \<and> size = 1) \<and> utf8_ValidString (drop (size - 1) cs)))"

subsection \<open>Graceful shutdown\<close>

text \<open>
  \<^verbatim>\<open>shutDown\<close>: a context that expires \<^verbatim>\<open>DefaultAwaitTimeout\<close> from now, the log
  line with the deadline, \<^verbatim>\<open>Server.Shutdown(ctx)\<close>, and the deferred \<^verbatim>\<open>cancel\<close>.
\<close>

definition shutDown :: "os \<Rightarrow> GracefulServer \<Rightarrow> error option \<times> event list" where
  "shutDown w srv =
     (let expired = Now w + DefaultAwaitTimeout in
      (ServerShutdown w (Server srv) expired,
       [Enter_shutDown, E_Log (InfoDeadline expired),
        E_ServerShutdown (Server srv) expired, E_Cancel]))"

subsection \<open>The process forker\<close>

definition createListenerFile :: "os \<Rightarrow> listener option \<Rightarrow> error + os_file" where
  "createListenerFile w l =
     (case l of
        Some (TCPListener s) \<Rightarrow>
          (case ListenerFile w (TCPListener s) of
             Inl err \<Rightarrow> Inl err
           | Inr name \<Rightarrow> Inr (File name (Socket TCP s)))
      | Some (UnixListener s) \<Rightarrow>
          (case ListenerFile w (UnixListener s) of
             Inl err \<Rightarrow> Inl err
           | Inr name \<Rightarrow> Inr (File name (Socket Unix s)))
      | _ \<Rightarrow> Inl UnsupportedListener)"

text \<open>
  \<^verbatim>\<open>forkChild\<close>. The deferred \<^verbatim>\<open>f.Close()\<close> runs at every return after the
  listener file exists.
\<close>

definition forkChild :: "os \<Rightarrow> GracefulServer \<Rightarrow> bool \<Rightarrow> int \<Rightarrow> error option \<times> event list" where
  "forkChild w srv killMaster mpid =
     (case createListenerFile w (Listener srv) of
        Inl err \<Rightarrow> (Some err, [Enter_forkChild killMaster mpid])
      | Inr f \<Rightarrow>
          (let l = \<lparr>ldAddr = Addr srv, FD = 3, Name = fname f\<rparr> in
           case json_Marshal l of
             Inl err \<Rightarrow> (Some err, [Enter_forkChild killMaster mpid, E_FileClose f])
           | Inr env \<Rightarrow>
               (let files = [Stdin w, Stdout w, Stderr w, f];
                    environment = Environ w @ [DefaultEnvVar @ ''='' @ env] in
                case Executable w of
                  Inl err \<Rightarrow> (Some err, [Enter_forkChild killMaster mpid, E_FileClose f])
                | Inr exec \<Rightarrow>
                    (let execDir = filepath_Dir w exec;
                         attr = \<lparr>Dir = execDir, Env = environment, Files = files\<rparr> in
                     case StartProcess w exec [exec] attr of
                       Inl err \<Rightarrow>
                         (Some err,
                          [Enter_forkChild killMaster mpid, E_StartProcess exec [exec] attr,
                           E_FileClose f])
                     | Inr pid \<Rightarrow>
                         (if killMaster then
                            (case Kill w mpid SIGTERM of
                               Some err \<Rightarrow>
                                 (Some (KillMasterFailed mpid err),
                                  [Enter_forkChild killMaster mpid,
                                   E_StartProcess exec [exec] attr, E_Log (InfoForked pid),
                                   E_Kill mpid SIGTERM, E_FileClose f])
                             | None \<Rightarrow>
                                 (None,
                                  [Enter_forkChild killMaster mpid,
                                   E_StartProcess exec [exec] attr, E_Log (InfoForked pid),
                                   E_Kill mpid SIGTERM, E_Log (InfoMasterKilled mpid),
                                   E_FileClose f]))
                          else
                            (None,
                             [Enter_forkChild killMaster mpid,
                              E_StartProcess exec [exec] attr, E_Log (InfoForked pid),
                              E_Log (InfoMasterAlive mpid), E_FileClose f]))))))"

text \<open>
  \<^verbatim>\<open>os.StartProcess\<close> gives the new process the files of \<^verbatim>\<open>ProcAttr.Files\<close> as its
  open descriptors: entry \<open>n\<close> of the list is descriptor \<open>n\<close> of the child.
\<close>

definition inherit_fds :: "os_file list \<Rightarrow> nat \<Rightarrow> file_object option" where
  "inherit_fds files n = (if n < length files then Some (fobj (files ! n)) else None)"

subsection \<open>The signal dispatcher\<close>

text \<open>
  \<^verbatim>\<open>signal.Notify(sigChan, sigHooks...)\<close> relays to the channel the signals it is
  given, and no other. A signal delivered to the process that is not among them takes
  its default action: it ends the process, and then nothing that is delivered later
  reaches the channel, or it leaves the program as it is. The result is what the channel
  receives, and the signal that ended the process, if one did.
\<close>

fun signal_Notify ::
  "signal list \<Rightarrow> (signal \<times> os) list \<Rightarrow> (signal \<times> os) list \<times> signal option"
where
  "signal_Notify hooks [] = ([], None)"
| "signal_Notify hooks ((sig, w) # rest) =
     (if sig \<in> set hooks then
        (let (sigChan, ended) = signal_Notify hooks rest in ((sig, w) # sigChan, ended))
      else if DefaultAction w sig = Terminate then ([], Some sig)
      else signal_Notify hooks rest)"

text \<open>
  The loop of \<^verbatim>\<open>handleSignals\<close> over the signals read from the channel, each with
  the answers the system gives while it is handled. The loop blocks on the channel when
  the list is used up (\<open>Waiting\<close>); it returns only through \<^verbatim>\<open>shutDown\<close>.
\<close>

definition sigHooks :: "signal list" where
  "sigHooks = [SIGHUP, SIGUSR1, SIGUSR2, SIGINT, SIGTERM]"

fun signalLoop ::
  "GracefulServer \<Rightarrow> bool \<Rightarrow> int \<Rightarrow> (signal \<times> os) list \<Rightarrow> error option outcome \<times> event list"
where
  "signalLoop srv killMaster mpid [] = (Waiting, [])"
| "signalLoop srv killMaster mpid ((sig, w) # rest) =
     (let received = E_Log (InfoSignal mpid sig) in
      if sig = SIGHUP then
        (case forkChild w srv killMaster mpid of
           (Some err, evs) \<Rightarrow>
             (let (r, evs') = signalLoop srv killMaster mpid rest in
              (r, received # evs @ [E_Log (ErrFork err)] @ evs'))
         | (None, evs) \<Rightarrow>
             (let (err, evs') = shutDown w srv in
              (Returned err, received # evs @ evs')))
      else if sig = SIGUSR1 \<or> sig = SIGUSR2 then
        (case forkChild w srv killMaster mpid of
           (Some err, evs) \<Rightarrow>
             (let (r, evs') = signalLoop srv killMaster mpid rest in
              (r, received # evs @ [E_Log (ErrFork err)] @ evs'))
         | (None, evs) \<Rightarrow>
             (let (r, evs') = signalLoop srv killMaster mpid rest in
              (r, received # evs @ evs')))
      else if sig = SIGINT \<or> sig = SIGTERM then
        (let (err, evs') = shutDown w srv in
         (Returned err, [received] @ evs'))
      else
        (let (r, evs') = signalLoop srv killMaster mpid rest in
         (r, [received, E_Log (InfoNotHooked sig)] @ evs')))"

text \<open>
  \<^verbatim>\<open>handleSignals\<close>, over the signals delivered to the process: it hooks the five
  signals and runs the loop on what the channel receives. A call that is blocked on the
  channel when a signal ends the process ends with it.
\<close>

definition handleSignals ::
  "GracefulServer \<Rightarrow> bool \<Rightarrow> int \<Rightarrow> (signal \<times> os) list \<Rightarrow> error option outcome \<times> event list"
where
  "handleSignals srv killMaster mpid sigs =
     (let (sigChan, ended) = signal_Notify sigHooks sigs;
          (r, evs) = signalLoop srv killMaster mpid sigChan
      in
        (case r of
           Waiting \<Rightarrow> (case ended of None \<Rightarrow> Waiting | Some sig \<Rightarrow> Killed sig)
         | _ \<Rightarrow> r,
         E_Notify sigHooks # evs))"

subsection \<open>Listener acquisition\<close>

text \<open>
  \<^verbatim>\<open>os.NewFile(uintptr(fd), name)\<close> is \<^verbatim>\<open>nil\<close> exactly when the descriptor
  number is negative; it does not ask whether the descriptor is open. The file stands
  for whatever the descriptor table holds at that number, of which the system calls on
  the file read the low 32 bits.
\<close>

definition os_NewFile :: "os \<Rightarrow> int \<Rightarrow> string \<Rightarrow> os_file option" where
  "os_NewFile w fd name =
     (if fd < 0 then None
      else Some (File name (case fd_table w (nat fd mod 2 ^ 32) of
                              None \<Rightarrow> NotOpen | Some obj \<Rightarrow> obj)))"

text \<open>\<^verbatim>\<open>net.FileListener\<close>: a listener on the socket behind the file, when there is one.\<close>

definition net_FileListener :: "os_file \<Rightarrow> error + listener" where
  "net_FileListener f =
     (case fobj f of
        Socket TCP s \<Rightarrow> Inr (TCPListener s)
      | Socket Unix s \<Rightarrow> Inr (UnixListener s)
      | _ \<Rightarrow> Inl (LibError ''file is not a listening stream socket''))"

definition newListener :: "os \<Rightarrow> GracefulServer \<Rightarrow> error option \<times> GracefulServer \<times> event list"
where
  "newListener w srv =
     (case Listen w DefaultNetwork (Addr srv) of
        Inl err \<Rightarrow>
          (Some err, srv\<lparr>Listener := None\<rparr>,
           [Enter_newListener, E_Listen DefaultNetwork (Addr srv)])
      | Inr s \<Rightarrow>
          (None, srv\<lparr>Listener := Some (TCPListener s)\<rparr>,
           [Enter_newListener, E_Listen DefaultNetwork (Addr srv)]))"

definition importListener ::
  "os \<Rightarrow> GracefulServer \<Rightarrow> string \<Rightarrow> error option \<times> GracefulServer \<times> event list"
where
  "importListener w srv env =
     (case json_Unmarshal env of
        Inl err \<Rightarrow> (Some (UnmarshalFailed env), srv, [Enter_importListener env])
      | Inr fl \<Rightarrow>
          if ldAddr fl \<noteq> Addr srv then
            (Some (ListenerNotFound (Addr srv)), srv, [Enter_importListener env])
          else
            (case os_NewFile w (FD fl) (Name fl) of
               None \<Rightarrow>
                 (Some (ListenerFileFailed (Name fl)), srv,
                  [Enter_importListener env, E_NewFile (FD fl) (Name fl)])
             | Some f \<Rightarrow>
                 (case net_FileListener f of
                    Inl err \<Rightarrow>
                      (Some err, srv\<lparr>Listener := None\<rparr>,
                       [Enter_importListener env, E_NewFile (FD fl) (Name fl),
                        E_FileListener f, E_FileClose f])
                  | Inr l \<Rightarrow>
                      (None, srv\<lparr>Listener := Some l\<rparr>,
                       [Enter_importListener env, E_NewFile (FD fl) (Name fl),
                        E_FileListener f, E_FileClose f]))))"

text \<open>
  \<^verbatim>\<open>createListener\<close>. \<open>createListener_fresh\<close> is the part of its body after the
  import branch: a new listener, and the log line when there is one; \<open>evs\<close> are the
  effects before it.
\<close>

definition createListener_fresh ::
  "os \<Rightarrow> GracefulServer \<Rightarrow> event list \<Rightarrow> error option \<times> GracefulServer \<times> event list"
where
  "createListener_fresh w srv evs =
     (case newListener w srv of
        (Some err, srv', evs') \<Rightarrow> (Some err, srv', evs @ evs')
      | (None, srv', evs') \<Rightarrow> (None, srv', evs @ evs' @ [E_Log (InfoCreated (Addr srv'))]))"

definition createListener :: "os \<Rightarrow> GracefulServer \<Rightarrow> error option \<times> GracefulServer \<times> event list"
where
  "createListener w srv =
     (let env = Getenv w DefaultEnvVar in
      if env \<noteq> [] then
        (case importListener w srv env of
           (None, srv', evs) \<Rightarrow> (None, srv', evs @ [E_Log InfoImported])
         | (Some err, srv', evs) \<Rightarrow>
             createListener_fresh w srv' (evs @ [E_Log (InfoImportFailed err)]))
      else createListener_fresh w srv [])"

subsection \<open>Serving\<close>

text \<open>
  \<^verbatim>\<open>GracefulServe\<close> and \<^verbatim>\<open>GracefulServeTLS\<close>, from the state \<open>w\<close> of the system
  at start and the signals delivered afterwards. A \<^verbatim>\<open>nil\<close> server is \<open>None\<close>: reading
  its address panics. \<^verbatim>\<open>log.Fatalf\<close> writes the line and exits with status 1.
\<close>

datatype 'a result = Done 'a | Panic

definition GracefulServe ::
  "os \<Rightarrow> (signal \<times> os) list \<Rightarrow> http_Server option \<Rightarrow> bool
     \<Rightarrow> (GracefulServer option \<times> error option) outcome result \<times> event list"
where
  "GracefulServe w sigs server killMaster =
     (case server of
        None \<Rightarrow> (Panic, [])
      | Some sv \<Rightarrow>
          (let gs = None;
               srv = \<lparr>Addr = Server_Addr sv, PID = 0, Server = sv, Listener = None\<rparr>;
               (err, srv, evs) = createListener w srv
           in
             case err of
               Some e \<Rightarrow> (Done (Exited 1), evs @ [E_Log (FatalCreateListener e), E_Exit 1])
             | None \<Rightarrow>
                 (let serve = [E_GoServe (Server srv) (Listener srv)];
                      pid = Getpid w;
                      srv = srv\<lparr>PID := pid\<rparr>;
                      started = [E_Log (InfoStarted (PID srv))];
                      (r, evs') = handleSignals srv killMaster (PID srv) sigs
                  in
                    case r of
                      Waiting \<Rightarrow> (Done Waiting, evs @ serve @ started @ evs')
                    | Killed sig \<Rightarrow> (Done (Killed sig), evs @ serve @ started @ evs')
                    | Exited n \<Rightarrow> (Done (Exited n), evs @ serve @ started @ evs')
                    | Returned (Some e) \<Rightarrow>
                        (Done (Exited 1),
                         evs @ serve @ started @ evs' @ [E_Log (FatalShutDown e), E_Exit 1])
                    | Returned None \<Rightarrow>
                        (Done (Returned (gs, None)),
                         evs @ serve @ started @ evs' @ [E_Log InfoShutDown]))))"

definition GracefulServeTLS ::
  "os \<Rightarrow> (signal \<times> os) list \<Rightarrow> http_Server option \<Rightarrow> bool \<Rightarrow> string \<Rightarrow> string
     \<Rightarrow> error option outcome result \<times> event list"
where
  "GracefulServeTLS w sigs server killMaster certFile keyFile =
     (case server of
        None \<Rightarrow> (Panic, [])
      | Some sv \<Rightarrow>
          (let srv = \<lparr>Addr = Server_Addr sv, PID = 0, Server = sv, Listener = None\<rparr>;
               (err, srv, evs) = createListener w srv
           in
             case err of
               Some e \<Rightarrow> (Done (Exited 1), evs @ [E_Log (FatalCreateListener e), E_Exit 1])
             | None \<Rightarrow>
                 (let serve = [E_GoServeTLS (Server srv) (Listener srv) certFile keyFile,
                               E_ServerClose sv];
                      pid = Getpid w;
                      srv = srv\<lparr>PID := pid\<rparr>;
                      started = [E_Log (InfoStarted (PID srv))];
                      (r, evs') = handleSignals srv killMaster (PID srv) sigs
                  in
                    case r of
                      Waiting \<Rightarrow> (Done Waiting, evs @ serve @ started @ evs')
                    | Killed sig \<Rightarrow> (Done (Killed sig), evs @ serve @ started @ evs')
                    | Exited n \<Rightarrow> (Done (Exited n), evs @ serve @ started @ evs')
                    | Returned (Some e) \<Rightarrow>
                        (Done (Exited 1),
                         evs @ serve @ started @ evs' @ [E_Log (FatalShutDown e), E_Exit 1])
                    | Returned None \<Rightarrow>
                        (Done (Returned None),
                         evs @ serve @ started @ evs' @ [E_Log InfoShutDown]))))"

text \<open>\<^verbatim>\<open>GracefulShutDown\<close>, the exported twin of \<^verbatim>\<open>shutDown\<close>.\<close>

definition GracefulShutDown :: "os \<Rightarrow> http_Server \<Rightarrow> error option \<times> event list" where
  "GracefulShutDown w server =
     (let expired = Now w + DefaultAwaitTimeout in
      (ServerShutdown w server expired,
       [E_Log (InfoDeadline expired), E_ServerShutdown server expired, E_Cancel]))"

subsection \<open>Counting attempts in a run\<close>

text \<open>
  An attempt is an entry into the function: a fork attempt is a call of
  \<^verbatim>\<open>forkChild\<close>, a shutdown attempt a call of \<^verbatim>\<open>shutDown\<close>, a fresh creation a
  call of \<^verbatim>\<open>newListener\<close>.
\<close>

fun is_fork :: "event \<Rightarrow> bool" where
  "is_fork (Enter_forkChild _ _) = True"
| "is_fork _ = False"

fun is_shutdown :: "event \<Rightarrow> bool" where
  "is_shutdown Enter_shutDown = True"
| "is_shutdown _ = False"

fun is_fresh :: "event \<Rightarrow> bool" where
  "is_fresh Enter_newListener = True"
| "is_fresh _ = False"

definition fork_attempts :: "event list \<Rightarrow> nat" where
  "fork_attempts evs = length (filter is_fork evs)"

definition shutdown_attempts :: "event list \<Rightarrow> nat" where
  "shutdown_attempts evs = length (filter is_shutdown evs)"

definition fresh_creations :: "event list \<Rightarrow> nat" where
  "fresh_creations evs = length (filter is_fresh evs)"

subsection \<open>A concrete system, for the examples\<close>

definition ex_server :: http_Server where
  "ex_server = \<lparr>Server_Addr = '':8080''\<rparr>"

definition ex_srv :: GracefulServer where
  "ex_srv = \<lparr>Addr = '':8080'', PID = 4000, Server = ex_server, Listener = Some (TCPListener 7)\<rparr>"

text \<open>
  A system on which every call succeeds, started without a handoff payload. Of the
  signals the program has not asked for, a change of the window size and the exit of a
  child leave it as it is; the others end it.
\<close>

definition ex_os :: os where
  "ex_os =
     \<lparr>Getenv = (\<lambda>k. []),
      fd_table = (\<lambda>n. if n < 3 then Some (StdStream n) else None),
      Listen = (\<lambda>network addr. Inr 7),
      ListenerFile = (\<lambda>l. Inr ''tcp:[::]:8080->''),
      Environ = [''PATH=/bin''],
      Executable = Inr ''/srv/app'',
      filepath_Dir = (\<lambda>p. ''/srv''),
      StartProcess = (\<lambda>exec args attr. Inr 4242),
      Kill = (\<lambda>pid sig. None),
      DefaultAction =
        (\<lambda>sig. if sig = SIGOTHER ''window changed'' \<or> sig = SIGOTHER ''child exited''
               then Ignore else Terminate),
      Getpid = 4000,
      Now = 0,
      ServerShutdown = (\<lambda>server deadline. None),
      Stdin = File ''/dev/stdin'' (StdStream 0),
      Stdout = File ''/dev/stdout'' (StdStream 1),
      Stderr = File ''/dev/stderr'' (StdStream 2)\<rparr>"

text \<open>The same system when no process can be started, and when the signal cannot be sent.\<close>

definition ex_os_nofork :: os where
  "ex_os_nofork =
     ex_os\<lparr>StartProcess :=
             (\<lambda>exec args attr. Inl (LibError ''fork/exec: resource temporarily unavailable''))\<rparr>"

definition ex_os_nokill :: os where
  "ex_os_nokill = ex_os\<lparr>Kill := (\<lambda>pid sig. Some (LibError ''operation not permitted''))\<rparr>"

text \<open>The server handle as \<^verbatim>\<open>GracefulServe\<close> builds it, before a listener exists.\<close>

definition ex_srv0 :: GracefulServer where
  "ex_srv0 = \<lparr>Addr = '':8080'', PID = 0, Server = ex_server, Listener = None\<rparr>"

text \<open>
  The payload a fork of \<open>ex_srv\<close> on \<open>ex_os\<close> writes, and three systems that carry a
  payload: a child that inherited the socket at descriptor 3, a process that has the
  payload but no descriptor 3 (started by hand from a stale environment), and one whose
  payload is cut short.
\<close>

definition ex_payload :: string where
  "ex_payload =
     ''{'' @ [dquote] @ ''addr'' @ [dquote] @ '':'' @ [dquote] @ '':8080'' @ [dquote]
     @ '','' @ [dquote] @ ''FD'' @ [dquote] @ '':3,'' @ [dquote] @ ''Name'' @ [dquote]
     @ '':'' @ [dquote] @ ''tcp:[::]:8080-'' @ [bslash] @ ''u003e'' @ [dquote] @ ''}''"

definition ex_os_stale :: os where
  "ex_os_stale = ex_os\<lparr>Getenv := (\<lambda>k. if k = DefaultEnvVar then ex_payload else [])\<rparr>"

definition ex_os_child :: os where
  "ex_os_child =
     ex_os_stale\<lparr>fd_table := (\<lambda>n. if n < 3 then Some (StdStream n)
                                  else if n = 3 then Some (Socket TCP 7) else None)\<rparr>"

definition ex_os_garbled :: os where
  "ex_os_garbled = ex_os\<lparr>Getenv := (\<lambda>k. if k = DefaultEnvVar then ''{addr'' else [])\<rparr>"

definition ex_attr :: ProcAttr where
  "ex_attr =
     \<lparr>Dir = ''/srv'',
      Env = [''PATH=/bin'', DefaultEnvVar @ ''='' @ ex_payload],
      Files = [File ''/dev/stdin'' (StdStream 0), File ''/dev/stdout'' (StdStream 1),
               File ''/dev/stderr'' (StdStream 2), File ''tcp:[::]:8080->'' (Socket TCP 7)]\<rparr>"

section \<open>Properties\<close>

subsection \<open>Auxiliary facts\<close>

lemma fork_attempts_simps [simp]:
  "fork_attempts [] = 0"
  "fork_attempts (e # evs) = (if is_fork e then 1 else 0) + fork_attempts evs"
  "fork_attempts (evs @ evs') = fork_attempts evs + fork_attempts evs'"
  by (simp_all add: fork_attempts_def)

lemma shutdown_attempts_simps [simp]:
  "shutdown_attempts [] = 0"
  "shutdown_attempts (e # evs) = (if is_shutdown e then 1 else 0) + shutdown_attempts evs"
  "shutdown_attempts (evs @ evs') = shutdown_attempts evs + shutdown_attempts evs'"
  by (simp_all add: shutdown_attempts_def)

lemma fresh_creations_simps [simp]:
  "fresh_creations [] = 0"
  "fresh_creations (e # evs) = (if is_fresh e then 1 else 0) + fresh_creations evs"
  "fresh_creations (evs @ evs') = fresh_creations evs + fresh_creations evs'"
  by (simp_all add: fresh_creations_def)

lemma forkChild_attempts:
  "fork_attempts (snd (forkChild w srv km mpid)) = 1"
  "shutdown_attempts (snd (forkChild w srv km mpid)) = 0"
  by (simp_all add: forkChild_def Let_def split: sum.splits option.splits)

lemma shutDown_attempts:
  "fork_attempts (snd (shutDown w srv)) = 0"
  "shutdown_attempts (snd (shutDown w srv)) = 1"
  by (simp_all add: shutDown_def Let_def)

text \<open>One turn of the loop, by the signal received.\<close>

lemma loop_hup_fail:
  assumes "fst (forkChild w srv km mpid) = Some err"
  shows "signalLoop srv km mpid ((SIGHUP, w) # rest) =
     (fst (signalLoop srv km mpid rest),
      E_Log (InfoSignal mpid SIGHUP) # snd (forkChild w srv km mpid) @ [E_Log (ErrFork err)]
        @ snd (signalLoop srv km mpid rest))"
  using assms by (cases "forkChild w srv km mpid") (simp add: split_beta)

lemma loop_hup_ok:
  assumes "fst (forkChild w srv km mpid) = None"
  shows "signalLoop srv km mpid ((SIGHUP, w) # rest) =
     (Returned (fst (shutDown w srv)),
      E_Log (InfoSignal mpid SIGHUP) # snd (forkChild w srv km mpid) @ snd (shutDown w srv))"
  using assms by (cases "forkChild w srv km mpid") (simp add: split_beta)

lemma loop_usr:
  assumes "sig = SIGUSR1 \<or> sig = SIGUSR2"
  shows "signalLoop srv km mpid ((sig, w) # rest) =
     (fst (signalLoop srv km mpid rest),
      E_Log (InfoSignal mpid sig) # snd (forkChild w srv km mpid)
        @ (case fst (forkChild w srv km mpid) of None \<Rightarrow> [] | Some err \<Rightarrow> [E_Log (ErrFork err)])
        @ snd (signalLoop srv km mpid rest))"
  using assms
  by (cases "forkChild w srv km mpid") (auto simp add: split_beta split: option.splits)

lemma loop_term:
  assumes "sig = SIGINT \<or> sig = SIGTERM"
  shows "signalLoop srv km mpid ((sig, w) # rest) =
     (Returned (fst (shutDown w srv)), E_Log (InfoSignal mpid sig) # snd (shutDown w srv))"
  using assms by (auto simp add: split_beta)

lemma loop_other:
  assumes "sig \<notin> set sigHooks"
  shows "signalLoop srv km mpid ((sig, w) # rest) =
     (fst (signalLoop srv km mpid rest),
      [E_Log (InfoSignal mpid sig), E_Log (InfoNotHooked sig)]
        @ snd (signalLoop srv km mpid rest))"
  using assms by (auto simp add: split_beta sigHooks_def)

declare signalLoop.simps(2) [simp del]

text \<open>What \<^verbatim>\<open>signal.Notify\<close> relays.\<close>

lemma signal_Notify_hooked:
  assumes "\<forall>(sig, w) \<in> set sigs. sig \<in> set hooks"
  shows "signal_Notify hooks sigs = (sigs, None)"
  using assms by (induction sigs) auto

lemma signal_Notify_relays_hooked:
  "\<forall>(sig, w) \<in> set (fst (signal_Notify hooks sigs)). sig \<in> set hooks"
  by (induction sigs) (auto simp: split_beta Let_def split: if_splits)

lemma signal_Notify_append_ended:
  assumes "snd (signal_Notify hooks xs) = Some k"
  shows "signal_Notify hooks (xs @ ys) = signal_Notify hooks xs"
  using assms by (induction xs) (auto simp: split_beta)

lemma signal_Notify_append:
  assumes "snd (signal_Notify hooks xs) = None"
  shows "signal_Notify hooks (xs @ ys) =
     (fst (signal_Notify hooks xs) @ fst (signal_Notify hooks ys), snd (signal_Notify hooks ys))"
  using assms by (induction xs) (auto simp: split_beta)

text \<open>The log lines about a signal are written by the loop, and only about a hooked one.\<close>

lemma forkChild_logs:
  "E_Log (InfoSignal m s) \<notin> set (snd (forkChild w srv km mpid))"
  "E_Log (InfoNotHooked s) \<notin> set (snd (forkChild w srv km mpid))"
  by (simp_all add: forkChild_def Let_def split: sum.splits option.splits)

lemma shutDown_logs:
  "E_Log (InfoSignal m s) \<notin> set (snd (shutDown w srv))"
  "E_Log (InfoNotHooked s) \<notin> set (snd (shutDown w srv))"
  by (simp_all add: shutDown_def Let_def)

lemma signalLoop_logs:
  assumes "\<forall>(sig, w) \<in> set sigChan. sig \<in> set sigHooks"
  shows "E_Log (InfoNotHooked s) \<notin> set (snd (signalLoop srv km mpid sigChan))
     \<and> (E_Log (InfoSignal m s) \<in> set (snd (signalLoop srv km mpid sigChan))
          \<longrightarrow> s \<in> set sigHooks)"
  using assms
proof (induction sigChan)
  case Nil
  then show ?case by simp
next
  case (Cons d ds)
  obtain sig w where d: "d = (sig, w)" by (cases d)
  from Cons.prems d have h: "sig \<in> set sigHooks"
    and r: "\<forall>(sig, w) \<in> set ds. sig \<in> set sigHooks" by simp_all
  note ih = Cons.IH[OF r]
  from h consider (hup) "sig = SIGHUP" | (usr) "sig = SIGUSR1 \<or> sig = SIGUSR2"
    | (stop) "sig = SIGINT \<or> sig = SIGTERM"
    by (auto simp: sigHooks_def)
  then show ?case
  proof cases
    case hup
    show ?thesis
    proof (cases "fst (forkChild w srv km mpid)")
      case None
      from h show ?thesis
        by (simp add: d hup loop_hup_ok[OF None] forkChild_logs shutDown_logs)
    next
      case (Some err)
      from h ih show ?thesis
        by (simp add: d hup loop_hup_fail[OF Some] forkChild_logs)
    qed
  next
    case usr
    from h ih show ?thesis
      by (simp add: d loop_usr[OF usr] forkChild_logs split: option.splits)
  next
    case stop
    from h show ?thesis
      by (simp add: d loop_term[OF stop] shutDown_logs)
  qed
qed

text \<open>The example system: a fork succeeds, fails to start, or fails to signal the master.\<close>

lemma ex_marshal:
  "json_Marshal \<lparr>ldAddr = '':8080'', FD = 3, Name = ''tcp:[::]:8080->''\<rparr> = Inr ex_payload"
  unfolding ex_payload_def by code_simp

lemma ex_forkChild_events:
  "snd (forkChild ex_os ex_srv False mpid) =
     [Enter_forkChild False mpid, E_StartProcess ''/srv/app'' [''/srv/app''] ex_attr,
      E_Log (InfoForked 4242), E_Log (InfoMasterAlive mpid),
      E_FileClose (File ''tcp:[::]:8080->'' (Socket TCP 7))]"
  by (simp add: forkChild_def createListenerFile_def ex_os_def ex_srv_def Let_def ex_marshal
        ex_attr_def)

lemma ex_forkChild_nofork_events:
  "snd (forkChild ex_os_nofork ex_srv False mpid) =
     [Enter_forkChild False mpid, E_StartProcess ''/srv/app'' [''/srv/app''] ex_attr,
      E_FileClose (File ''tcp:[::]:8080->'' (Socket TCP 7))]"
  by (simp add: forkChild_def createListenerFile_def ex_marshal ex_os_nofork_def
        ex_os_def ex_srv_def ex_attr_def Let_def)

lemma ex_forkChild_fails: "fst (forkChild ex_os_nofork ex_srv km mpid) =
    Some (LibError ''fork/exec: resource temporarily unavailable'')"
  by (simp add: forkChild_def createListenerFile_def json_Marshal_def ex_os_nofork_def
        ex_os_def ex_srv_def Let_def)

lemma ex_forkChild_ok: "fst (forkChild ex_os ex_srv km mpid) = None"
  by (simp add: forkChild_def createListenerFile_def json_Marshal_def ex_os_def ex_srv_def
        Let_def)

subsection \<open>The signal dispatcher\<close>

text \<open>
  C1, as the code has it. When the fork fails on a hangup, the dispatcher does not go on
  to shut down: the turn of the loop consists of the log line of the signal, the fork
  attempt and the log line of its failure, with no shutdown attempt among them, and the
  loop goes on with the signals that follow.
\<close>

theorem hangup_fork_failure_skips_shutdown:
  assumes "fst (forkChild w srv km mpid) = Some err"
  shows "\<exists>turn. snd (signalLoop srv km mpid ((SIGHUP, w) # rest))
                  = turn @ snd (signalLoop srv km mpid rest)
           \<and> shutdown_attempts turn = 0
           \<and> fork_attempts turn = 1
           \<and> last turn = E_Log (ErrFork err)
           \<and> fst (signalLoop srv km mpid ((SIGHUP, w) # rest))
               = fst (signalLoop srv km mpid rest)"
proof -
  let ?turn = "E_Log (InfoSignal mpid SIGHUP) # snd (forkChild w srv km mpid)
                 @ [E_Log (ErrFork err)]"
  have "snd (signalLoop srv km mpid ((SIGHUP, w) # rest))
          = ?turn @ snd (signalLoop srv km mpid rest)"
    by (simp add: loop_hup_fail[OF assms])
  moreover have "shutdown_attempts ?turn = 0" "fork_attempts ?turn = 1"
    by (simp_all add: forkChild_attempts)
  moreover have "last ?turn = E_Log (ErrFork err)"
    by simp
  moreover have "fst (signalLoop srv km mpid ((SIGHUP, w) # rest))
                   = fst (signalLoop srv km mpid rest)"
    by (simp add: loop_hup_fail[OF assms])
  ultimately show ?thesis by blast
qed

theorem hangup_fork_failure_skips_shutdown_witness:
  "fst (forkChild ex_os_nofork ex_srv False 4000)
     = Some (LibError ''fork/exec: resource temporarily unavailable'')
   \<and> (\<exists>turn. snd (signalLoop ex_srv False 4000 [(SIGHUP, ex_os_nofork)]) = turn
         \<and> shutdown_attempts turn = 0
         \<and> fork_attempts turn = 1
         \<and> last turn = E_Log (ErrFork (LibError ''fork/exec: resource temporarily unavailable''))
         \<and> fst (signalLoop ex_srv False 4000 [(SIGHUP, ex_os_nofork)]) = Waiting)"
proof -
  have h: "fst (forkChild ex_os_nofork ex_srv False 4000)
             = Some (LibError ''fork/exec: resource temporarily unavailable'')"
    by (rule ex_forkChild_fails)
  from hangup_fork_failure_skips_shutdown[OF h, of "[]"] h show ?thesis
    by simp
qed

text \<open>
  C1 as stated fails: on the example system where no process can be started, a hangup
  leaves the dispatcher waiting for the next signal, and no shutdown was attempted.
\<close>

theorem hangup_fork_failure_counterexample:
  "fst (forkChild ex_os_nofork ex_srv False 4000) \<noteq> None
   \<and> fst (signalLoop ex_srv False 4000 [(SIGHUP, ex_os_nofork)]) = Waiting
   \<and> shutdown_attempts (snd (signalLoop ex_srv False 4000 [(SIGHUP, ex_os_nofork)])) = 0
   \<and> Enter_shutDown \<notin> set (snd (signalLoop ex_srv False 4000 [(SIGHUP, ex_os_nofork)]))"
proof -
  have h: "fst (forkChild ex_os_nofork ex_srv False 4000)
             = Some (LibError ''fork/exec: resource temporarily unavailable'')"
    by (rule ex_forkChild_fails)
  have e: "snd (forkChild ex_os_nofork ex_srv False 4000) =
      [Enter_forkChild False 4000, E_StartProcess ''/srv/app'' [''/srv/app''] ex_attr,
       E_FileClose (File ''tcp:[::]:8080->'' (Socket TCP 7))]"
    by (simp add: forkChild_def createListenerFile_def ex_marshal ex_os_nofork_def
          ex_os_def ex_srv_def ex_attr_def Let_def)
  show ?thesis
    by (simp add: loop_hup_fail[OF h] h e)
qed

text \<open>
  C2. On a hangup: if the fork fails, the failure is logged and the loop goes on with the
  next signal (it has not returned); if the fork succeeds, the loop returns what the
  shutdown returned, an error or none, and handles no later signal.
\<close>

theorem hangup_transition:
  "(\<forall>err. fst (forkChild w srv km mpid) = Some err \<longrightarrow>
      signalLoop srv km mpid ((SIGHUP, w) # rest) =
        (fst (signalLoop srv km mpid rest),
         E_Log (InfoSignal mpid SIGHUP) # snd (forkChild w srv km mpid)
           @ [E_Log (ErrFork err)] @ snd (signalLoop srv km mpid rest)))
   \<and> (fst (forkChild w srv km mpid) = None \<longrightarrow>
      signalLoop srv km mpid ((SIGHUP, w) # rest) =
        (Returned (ServerShutdown w (Server srv) (Now w + DefaultAwaitTimeout)),
         E_Log (InfoSignal mpid SIGHUP) # snd (forkChild w srv km mpid)
           @ snd (shutDown w srv))
      \<and> shutdown_attempts (snd (signalLoop srv km mpid ((SIGHUP, w) # rest))) = 1)"
proof (intro conjI allI impI)
  fix err assume "fst (forkChild w srv km mpid) = Some err"
  then show "signalLoop srv km mpid ((SIGHUP, w) # rest) =
        (fst (signalLoop srv km mpid rest),
         E_Log (InfoSignal mpid SIGHUP) # snd (forkChild w srv km mpid)
           @ [E_Log (ErrFork err)] @ snd (signalLoop srv km mpid rest))"
    by (rule loop_hup_fail)
next
  assume ok: "fst (forkChild w srv km mpid) = None"
  have sd: "fst (shutDown w srv) = ServerShutdown w (Server srv) (Now w + DefaultAwaitTimeout)"
    by (simp add: shutDown_def Let_def)
  show "signalLoop srv km mpid ((SIGHUP, w) # rest) =
        (Returned (ServerShutdown w (Server srv) (Now w + DefaultAwaitTimeout)),
         E_Log (InfoSignal mpid SIGHUP) # snd (forkChild w srv km mpid)
           @ snd (shutDown w srv))"
    by (simp add: loop_hup_ok[OF ok] sd)
  show "shutdown_attempts (snd (signalLoop srv km mpid ((SIGHUP, w) # rest))) = 1"
    by (simp add: loop_hup_ok[OF ok] forkChild_attempts shutDown_attempts)
qed

theorem hangup_transition_witness:
  "fst (forkChild ex_os_nofork ex_srv False 4000)
     = Some (LibError ''fork/exec: resource temporarily unavailable'')
   \<and> fst (signalLoop ex_srv False 4000 [(SIGHUP, ex_os_nofork)]) = Waiting
   \<and> fst (forkChild ex_os ex_srv False 4000) = None
   \<and> fst (signalLoop ex_srv False 4000 [(SIGHUP, ex_os), (SIGUSR1, ex_os)]) = Returned None
   \<and> fst (signalLoop ex_srv False 4000
            [(SIGHUP, ex_os\<lparr>ServerShutdown := (\<lambda>s d. Some (LibError ''context deadline exceeded''))\<rparr>)])
       = Returned (Some (LibError ''context deadline exceeded''))"
proof -
  let ?late = "ex_os\<lparr>ServerShutdown := (\<lambda>s d. Some (LibError ''context deadline exceeded''))\<rparr>"
  have f: "fst (forkChild ex_os_nofork ex_srv False 4000)
             = Some (LibError ''fork/exec: resource temporarily unavailable'')"
    by (rule ex_forkChild_fails)
  have s: "fst (forkChild ex_os ex_srv False 4000) = None"
    by (rule ex_forkChild_ok)
  have l: "fst (forkChild ?late ex_srv False 4000) = None"
    by (simp add: forkChild_def createListenerFile_def json_Marshal_def ex_os_def ex_srv_def
          Let_def)
  from hangup_transition[of ex_os_nofork ex_srv False 4000 "[]"] f
  have 1: "fst (signalLoop ex_srv False 4000 [(SIGHUP, ex_os_nofork)]) = Waiting"
    by simp
  from hangup_transition[of ex_os ex_srv False 4000 "[(SIGUSR1, ex_os)]"] s
  have 2: "fst (signalLoop ex_srv False 4000 [(SIGHUP, ex_os), (SIGUSR1, ex_os)])
             = Returned None"
    by (simp add: ex_os_def)
  from hangup_transition[of ?late ex_srv False 4000 "[]"] l
  have 3: "fst (signalLoop ex_srv False 4000 [(SIGHUP, ?late)])
             = Returned (Some (LibError ''context deadline exceeded''))"
    by simp
  from f s 1 2 3 show ?thesis by simp
qed

text \<open>
  C7. A turn of the loop on a user signal, first or second, consists of the log line of
  the signal, one call of \<^verbatim>\<open>forkChild\<close> with all its effects, and the log line of
  the failure when the fork failed; after it the loop goes on with the signals that
  follow, whether the fork succeeded or not. So a run of user signals is the sequence of
  these turns and nothing else: each of them adds one fork attempt, none a shutdown, and
  with no signal left the dispatcher is waiting for the next. The user signals are
  hooked, so every one that is delivered to the process is handled so.
\<close>

theorem user_signals_fork_and_continue:
  assumes "\<forall>(sig, w) \<in> set deliveries. sig = SIGUSR1 \<or> sig = SIGUSR2"
  shows "let turn = (\<lambda>(sig, w).
                E_Log (InfoSignal mpid sig) # snd (forkChild w srv km mpid)
                  @ (case fst (forkChild w srv km mpid) of
                       None \<Rightarrow> [] | Some err \<Rightarrow> [E_Log (ErrFork err)]))
     in signalLoop srv km mpid (deliveries @ rest) =
          (fst (signalLoop srv km mpid rest),
           concat (map turn deliveries) @ snd (signalLoop srv km mpid rest))
      \<and> handleSignals srv km mpid deliveries =
          (Waiting, E_Notify sigHooks # concat (map turn deliveries))
      \<and> (\<forall>d \<in> set deliveries. fork_attempts (turn d) = 1 \<and> shutdown_attempts (turn d) = 0)
      \<and> fst (signalLoop srv km mpid (deliveries @ rest)) = fst (signalLoop srv km mpid rest)
      \<and> fork_attempts (snd (signalLoop srv km mpid (deliveries @ rest)))
          = length deliveries + fork_attempts (snd (signalLoop srv km mpid rest))
      \<and> shutdown_attempts (snd (signalLoop srv km mpid (deliveries @ rest)))
          = shutdown_attempts (snd (signalLoop srv km mpid rest))
      \<and> fst (signalLoop srv km mpid deliveries) = Waiting
      \<and> fork_attempts (snd (signalLoop srv km mpid deliveries)) = length deliveries"
proof -
  define turn where "turn = (\<lambda>(sig, w).
                E_Log (InfoSignal mpid sig) # snd (forkChild w srv km mpid)
                  @ (case fst (forkChild w srv km mpid) of
                       None \<Rightarrow> [] | Some err \<Rightarrow> [E_Log (ErrFork err)]))"
  have one: "fork_attempts (turn d) = 1 \<and> shutdown_attempts (turn d) = 0" for d
    by (cases d) (simp add: turn_def forkChild_attempts split: option.splits)
  have counts: "fork_attempts (concat (map turn ds)) = length ds
      \<and> shutdown_attempts (concat (map turn ds)) = 0" for ds
    by (induction ds) (simp_all add: one)
  have run: "signalLoop srv km mpid (ds @ r) =
          (fst (signalLoop srv km mpid r), concat (map turn ds) @ snd (signalLoop srv km mpid r))"
    if "\<forall>(sig, w) \<in> set ds. sig = SIGUSR1 \<or> sig = SIGUSR2" for ds r
    using that
  proof (induction ds)
    case Nil
    then show ?case by simp
  next
    case (Cons d ds)
    obtain sig w where d: "d = (sig, w)" by (cases d)
    with Cons.prems have u: "sig = SIGUSR1 \<or> sig = SIGUSR2" by simp
    from Cons.prems have "\<forall>(sig, w) \<in> set ds. sig = SIGUSR1 \<or> sig = SIGUSR2" by simp
    from Cons.IH[OF this] show ?case
      by (simp add: d loop_usr[OF u] turn_def)
  qed
  from assms have hooked: "\<forall>(sig, w) \<in> set deliveries. sig \<in> set sigHooks"
    by (auto simp: sigHooks_def)
  have h: "handleSignals srv km mpid deliveries =
             (Waiting, E_Notify sigHooks # concat (map turn deliveries))"
    using run[OF assms, of "[]"]
    by (simp add: handleSignals_def signal_Notify_hooked[OF hooked])
  from run[OF assms, of rest] run[OF assms, of "[]"] h one counts[of deliveries]
  show ?thesis
    unfolding Let_def turn_def[symmetric] by simp
qed

theorem user_signals_fork_and_continue_witness:
  "signalLoop ex_srv False 4000 [(SIGUSR1, ex_os), (SIGUSR2, ex_os_nofork), (SIGTERM, ex_os)] =
     (Returned None,
      [E_Log (InfoSignal 4000 SIGUSR1),
       Enter_forkChild False 4000, E_StartProcess ''/srv/app'' [''/srv/app''] ex_attr,
       E_Log (InfoForked 4242), E_Log (InfoMasterAlive 4000),
       E_FileClose (File ''tcp:[::]:8080->'' (Socket TCP 7)),
       E_Log (InfoSignal 4000 SIGUSR2),
       Enter_forkChild False 4000, E_StartProcess ''/srv/app'' [''/srv/app''] ex_attr,
       E_FileClose (File ''tcp:[::]:8080->'' (Socket TCP 7)),
       E_Log (ErrFork (LibError ''fork/exec: resource temporarily unavailable'')),
       E_Log (InfoSignal 4000 SIGTERM),
       Enter_shutDown, E_Log (InfoDeadline 5000000000),
       E_ServerShutdown ex_server 5000000000, E_Cancel])
   \<and> handleSignals ex_srv False 4000 [(SIGUSR1, ex_os), (SIGUSR2, ex_os_nofork)] =
     (Waiting,
      [E_Notify sigHooks,
       E_Log (InfoSignal 4000 SIGUSR1),
       Enter_forkChild False 4000, E_StartProcess ''/srv/app'' [''/srv/app''] ex_attr,
       E_Log (InfoForked 4242), E_Log (InfoMasterAlive 4000),
       E_FileClose (File ''tcp:[::]:8080->'' (Socket TCP 7)),
       E_Log (InfoSignal 4000 SIGUSR2),
       Enter_forkChild False 4000, E_StartProcess ''/srv/app'' [''/srv/app''] ex_attr,
       E_FileClose (File ''tcp:[::]:8080->'' (Socket TCP 7)),
       E_Log (ErrFork (LibError ''fork/exec: resource temporarily unavailable''))])
   \<and> fork_attempts (snd (signalLoop ex_srv False 4000
          [(SIGUSR1, ex_os), (SIGUSR2, ex_os_nofork), (SIGTERM, ex_os)])) = 2
   \<and> shutdown_attempts (snd (signalLoop ex_srv False 4000
          [(SIGUSR1, ex_os), (SIGUSR2, ex_os_nofork), (SIGTERM, ex_os)])) = 1
   \<and> fst (signalLoop ex_srv False 4000 [(SIGUSR1, ex_os), (SIGUSR2, ex_os_nofork)]) = Waiting
   \<and> fork_attempts (snd (signalLoop ex_srv False 4000
          [(SIGUSR1, ex_os), (SIGUSR2, ex_os_nofork)])) = 2"
proof -
  let ?ds = "[(SIGUSR1, ex_os), (SIGUSR2, ex_os_nofork)]"
  have h: "\<forall>(sig, w) \<in> set ?ds. sig = SIGUSR1 \<or> sig = SIGUSR2" by simp
  have t: "signalLoop ex_srv False 4000 [(SIGTERM, ex_os)] =
             (Returned None,
              [E_Log (InfoSignal 4000 SIGTERM), Enter_shutDown, E_Log (InfoDeadline 5000000000),
               E_ServerShutdown ex_server 5000000000, E_Cancel])"
    by (simp add: loop_term shutDown_def ex_os_def ex_srv_def Let_def DefaultAwaitTimeout_def
          Second_def)
  from user_signals_fork_and_continue[OF h, of 4000 ex_srv False "[(SIGTERM, ex_os)]"]
  show ?thesis
    by (simp add: Let_def t ex_forkChild_events ex_forkChild_nofork_events ex_forkChild_ok
          ex_forkChild_fails)
qed

text \<open>
  C8, as the code has it. \<^verbatim>\<open>handleSignals\<close> gives \<^verbatim>\<open>signal.Notify\<close> the five
  hooked signals only, so a signal other than these that is delivered to the process
  never reaches the loop. When its default action leaves the program as it is, the run
  is the run without that signal: nothing is logged for it, no fork and no shutdown is
  attempted, the signals that follow are handled as before. When its default action ends
  the process, the run is what went before it, and a dispatcher that was waiting for a
  signal ends with the process. In no run does the dispatcher write the log line of a
  received signal for a signal that is not hooked, or the log line of an ignored signal
  at all.
\<close>

theorem unhooked_signal_not_relayed:
  assumes "sig \<notin> set sigHooks"
  shows "(DefaultAction w sig = Ignore \<longrightarrow>
            handleSignals srv km mpid (earlier @ (sig, w) # rest)
              = handleSignals srv km mpid (earlier @ rest))
     \<and> (DefaultAction w sig = Terminate \<longrightarrow>
            handleSignals srv km mpid (earlier @ (sig, w) # rest)
              = (case fst (handleSignals srv km mpid earlier) of
                   Waiting \<Rightarrow> Killed sig | r \<Rightarrow> r,
                 snd (handleSignals srv km mpid earlier)))
     \<and> E_Log (InfoSignal m sig) \<notin> set (snd (handleSignals srv km mpid sigs))
     \<and> E_Log (InfoNotHooked s) \<notin> set (snd (handleSignals srv km mpid sigs))"
proof (intro conjI impI)
  assume "DefaultAction w sig = Ignore"
  with assms have "signal_Notify sigHooks (earlier @ (sig, w) # rest)
                     = signal_Notify sigHooks (earlier @ rest)"
    by (cases "snd (signal_Notify sigHooks earlier)")
       (simp_all add: signal_Notify_append signal_Notify_append_ended)
  then show "handleSignals srv km mpid (earlier @ (sig, w) # rest)
               = handleSignals srv km mpid (earlier @ rest)"
    by (simp add: handleSignals_def)
next
  assume t: "DefaultAction w sig = Terminate"
  show "handleSignals srv km mpid (earlier @ (sig, w) # rest)
          = (case fst (handleSignals srv km mpid earlier) of
               Waiting \<Rightarrow> Killed sig | r \<Rightarrow> r,
             snd (handleSignals srv km mpid earlier))"
  proof (cases "snd (signal_Notify sigHooks earlier)")
    case None
    with assms t show ?thesis
      by (simp add: handleSignals_def signal_Notify_append split_beta split: outcome.splits)
  next
    case (Some k)
    then show ?thesis
      by (simp add: handleSignals_def signal_Notify_append_ended split_beta
            split: outcome.splits)
  qed
next
  have r: "\<forall>(sig, w) \<in> set (fst (signal_Notify sigHooks sigs)). sig \<in> set sigHooks"
    by (rule signal_Notify_relays_hooked)
  from signalLoop_logs[OF r, where srv = srv and km = km and mpid = mpid and m = m and s = sig]
    assms
  show "E_Log (InfoSignal m sig) \<notin> set (snd (handleSignals srv km mpid sigs))"
    by (auto simp: handleSignals_def split_beta)
  from signalLoop_logs[OF r, where srv = srv and km = km and mpid = mpid and s = s]
  show "E_Log (InfoNotHooked s) \<notin> set (snd (handleSignals srv km mpid sigs))"
    by (auto simp: handleSignals_def split_beta)
qed

theorem unhooked_signal_not_relayed_witness:
  "SIGOTHER ''quit'' \<notin> set sigHooks
   \<and> DefaultAction ex_os (SIGOTHER ''quit'') = Terminate
   \<and> handleSignals ex_srv False 4000
        [(SIGUSR1, ex_os), (SIGOTHER ''quit'', ex_os), (SIGUSR2, ex_os)]
       = (Killed (SIGOTHER ''quit''),
          [E_Notify sigHooks, E_Log (InfoSignal 4000 SIGUSR1),
           Enter_forkChild False 4000, E_StartProcess ''/srv/app'' [''/srv/app''] ex_attr,
           E_Log (InfoForked 4242), E_Log (InfoMasterAlive 4000),
           E_FileClose (File ''tcp:[::]:8080->'' (Socket TCP 7))])
   \<and> SIGOTHER ''window changed'' \<notin> set sigHooks
   \<and> DefaultAction ex_os (SIGOTHER ''window changed'') = Ignore
   \<and> handleSignals ex_srv False 4000
        [(SIGUSR1, ex_os), (SIGOTHER ''window changed'', ex_os), (SIGTERM, ex_os)]
       = handleSignals ex_srv False 4000 [(SIGUSR1, ex_os), (SIGTERM, ex_os)]
   \<and> E_Log (InfoSignal 4000 (SIGOTHER ''quit''))
       \<notin> set (snd (handleSignals ex_srv False 4000
                      [(SIGUSR1, ex_os), (SIGOTHER ''quit'', ex_os), (SIGUSR2, ex_os)]))"
proof -
  have q: "SIGOTHER ''quit'' \<notin> set sigHooks"
    and c: "SIGOTHER ''window changed'' \<notin> set sigHooks"
    by (simp_all add: sigHooks_def)
  have dq: "DefaultAction ex_os (SIGOTHER ''quit'') = Terminate"
    and dc: "DefaultAction ex_os (SIGOTHER ''window changed'') = Ignore"
    by (simp_all add: ex_os_def)
  have e: "handleSignals ex_srv False 4000 [(SIGUSR1, ex_os)]
             = (Waiting, E_Notify sigHooks # E_Log (InfoSignal 4000 SIGUSR1)
                  # snd (forkChild ex_os ex_srv False 4000))"
    by (simp add: handleSignals_def sigHooks_def loop_usr ex_forkChild_ok)
  from unhooked_signal_not_relayed[OF q, of ex_os ex_srv False 4000 "[(SIGUSR1, ex_os)]"
         "[(SIGUSR2, ex_os)]" 4000
         "[(SIGUSR1, ex_os), (SIGOTHER ''quit'', ex_os), (SIGUSR2, ex_os)]"]
       unhooked_signal_not_relayed[OF c, of ex_os ex_srv False 4000 "[(SIGUSR1, ex_os)]"
         "[(SIGTERM, ex_os)]"]
       q c dq dc
  show ?thesis
    by (simp add: e ex_forkChild_events)
qed

text \<open>
  C8 as stated fails. A quit signal delivered to the process is not logged and the loop
  does not go on: the process ends, and the user signal delivered after it is not
  handled. A change of the window size leaves the dispatcher waiting, and is not logged
  either.
\<close>

theorem unhooked_signal_logged_counterexample:
  "SIGOTHER ''quit'' \<notin> set sigHooks
   \<and> handleSignals ex_srv False 4000 [(SIGOTHER ''quit'', ex_os), (SIGUSR1, ex_os)]
       = (Killed (SIGOTHER ''quit''), [E_Notify sigHooks])
   \<and> SIGOTHER ''window changed'' \<notin> set sigHooks
   \<and> handleSignals ex_srv False 4000 [(SIGOTHER ''window changed'', ex_os)]
       = (Waiting, [E_Notify sigHooks])
   \<and> E_Log (InfoSignal 4000 (SIGOTHER ''window changed''))
       \<notin> set (snd (handleSignals ex_srv False 4000 [(SIGOTHER ''window changed'', ex_os)]))
   \<and> E_Log (InfoNotHooked (SIGOTHER ''window changed''))
       \<notin> set (snd (handleSignals ex_srv False 4000 [(SIGOTHER ''window changed'', ex_os)]))"
  by (simp add: handleSignals_def sigHooks_def ex_os_def)

subsection \<open>The process forker\<close>

text \<open>
  C6. When the master is to be killed, the child was started (the system answered the
  \<^verbatim>\<open>os.StartProcess\<close> call of this fork with a process) and the terminate signal to
  the master's own process identifier could not be sent, the fork as a whole returns an
  error, which wraps the one of \<^verbatim>\<open>syscall.Kill\<close>; the child's start was logged.
\<close>

theorem forkChild_kill_failure:
  assumes "killMaster"
    and "E_StartProcess exec args attr \<in> set (snd (forkChild w srv killMaster mpid))"
    and "StartProcess w exec args attr = Inr pid"
    and "Kill w mpid SIGTERM = Some e"
  shows "fst (forkChild w srv killMaster mpid) = Some (KillMasterFailed mpid e)
     \<and> E_Log (InfoForked pid) \<in> set (snd (forkChild w srv killMaster mpid))
     \<and> E_Kill mpid SIGTERM \<in> set (snd (forkChild w srv killMaster mpid))"
  using assms
  by (auto simp: forkChild_def Let_def split: sum.splits option.splits)

theorem forkChild_kill_failure_witness:
  "E_StartProcess ''/srv/app'' [''/srv/app''] ex_attr
     \<in> set (snd (forkChild ex_os_nokill ex_srv True 4000))
   \<and> StartProcess ex_os_nokill ''/srv/app'' [''/srv/app''] ex_attr = Inr 4242
   \<and> Kill ex_os_nokill 4000 SIGTERM = Some (LibError ''operation not permitted'')
   \<and> fst (forkChild ex_os_nokill ex_srv True 4000)
       = Some (KillMasterFailed 4000 (LibError ''operation not permitted''))
   \<and> E_Log (InfoForked 4242) \<in> set (snd (forkChild ex_os_nokill ex_srv True 4000))"
proof -
  have s: "StartProcess ex_os_nokill ''/srv/app'' [''/srv/app''] ex_attr = Inr 4242"
    by (simp add: ex_os_nokill_def ex_os_def)
  have k: "Kill ex_os_nokill 4000 SIGTERM = Some (LibError ''operation not permitted'')"
    by (simp add: ex_os_nokill_def ex_os_def)
  have c: "E_StartProcess ''/srv/app'' [''/srv/app''] ex_attr
             \<in> set (snd (forkChild ex_os_nokill ex_srv True 4000))"
    by (simp add: forkChild_def createListenerFile_def ex_marshal ex_os_nokill_def
          ex_os_def ex_srv_def ex_attr_def Let_def)
  from forkChild_kill_failure[OF TrueI c s k] c s k show ?thesis by simp
qed

subsection \<open>Graceful shutdown\<close>

lemma forkChild_no_drain: "E_ServerShutdown sv d \<notin> set (snd (forkChild w srv km mpid))"
  by (simp add: forkChild_def Let_def split: sum.splits option.splits)

lemma shutDown_drain:
  "E_ServerShutdown sv d \<in> set (snd (shutDown w srv))
     \<longleftrightarrow> sv = Server srv \<and> d = Now w + 5000000000"
  by (auto simp: shutDown_def Let_def DefaultAwaitTimeout_def Second_def)

lemma signalLoop_drain:
  "E_ServerShutdown sv d \<in> set (snd (signalLoop srv km mpid sigs))
     \<Longrightarrow> sv = Server srv \<and> (\<exists>w \<in> snd ` set sigs. d = Now w + 5000000000)"
proof (induction sigs)
  case Nil
  then show ?case by simp
next
  case (Cons x sigs)
  obtain sig w where x: "x = (sig, w)" by (cases x)
  consider (hup) "sig = SIGHUP" | (usr) "sig = SIGUSR1 \<or> sig = SIGUSR2"
    | (stop) "sig = SIGINT \<or> sig = SIGTERM" | (other) "sig \<notin> set sigHooks"
    by (auto simp: sigHooks_def)
  then show ?case
  proof cases
    case hup
    show ?thesis
    proof (cases "fst (forkChild w srv km mpid)")
      case None
      with Cons.prems show ?thesis
        unfolding x hup by (simp add: loop_hup_ok forkChild_no_drain shutDown_drain)
    next
      case (Some err)
      with Cons.prems have "E_ServerShutdown sv d \<in> set (snd (signalLoop srv km mpid sigs))"
        unfolding x hup by (simp add: loop_hup_fail forkChild_no_drain)
      from Cons.IH[OF this] show ?thesis by (auto simp: x)
    qed
  next
    case usr
    with Cons.prems have "E_ServerShutdown sv d \<in> set (snd (signalLoop srv km mpid sigs))"
      unfolding x by (auto simp: loop_usr forkChild_no_drain split: option.splits)
    from Cons.IH[OF this] show ?thesis by (auto simp: x)
  next
    case stop
    with Cons.prems show ?thesis
      unfolding x by (simp add: loop_term shutDown_drain)
  next
    case other
    with Cons.prems have "E_ServerShutdown sv d \<in> set (snd (signalLoop srv km mpid sigs))"
      unfolding x by (simp add: loop_other)
    from Cons.IH[OF this] show ?thesis by (auto simp: x)
  qed
qed

text \<open>
  C5, as the code has it. Neither \<^verbatim>\<open>shutDown\<close> nor \<^verbatim>\<open>GracefulShutDown\<close> takes a
  timeout: whatever the state of the system and whatever the server, the deadline is
  five seconds (\<open>5 * 10\<^sup>9\<close> nanoseconds) after now; the deadline is logged, the server is
  asked to shut down by that deadline, what it answers is returned, and the context is
  released. So in every run of the dispatcher, every request to the serving engine to
  drain carries the deadline five seconds after the time at which its signal was handled.
\<close>

theorem shutDown_fixed_timeout:
  "shutDown w srv =
     (ServerShutdown w (Server srv) (Now w + 5000000000),
      [Enter_shutDown, E_Log (InfoDeadline (Now w + 5000000000)),
       E_ServerShutdown (Server srv) (Now w + 5000000000), E_Cancel])
   \<and> GracefulShutDown w server =
     (ServerShutdown w server (Now w + 5000000000),
      [E_Log (InfoDeadline (Now w + 5000000000)),
       E_ServerShutdown server (Now w + 5000000000), E_Cancel])
   \<and> DefaultAwaitTimeout = 5 * Second
   \<and> (\<forall>sv d. E_ServerShutdown sv d \<in> set (snd (signalLoop srv km mpid sigs)) \<longrightarrow>
         sv = Server srv \<and> (\<exists>w' \<in> snd ` set sigs. d = Now w' + 5000000000))"
proof -
  have "shutDown w srv =
     (ServerShutdown w (Server srv) (Now w + 5000000000),
      [Enter_shutDown, E_Log (InfoDeadline (Now w + 5000000000)),
       E_ServerShutdown (Server srv) (Now w + 5000000000), E_Cancel])"
    by (simp add: shutDown_def DefaultAwaitTimeout_def Second_def Let_def)
  moreover have "GracefulShutDown w server =
     (ServerShutdown w server (Now w + 5000000000),
      [E_Log (InfoDeadline (Now w + 5000000000)),
       E_ServerShutdown server (Now w + 5000000000), E_Cancel])"
    by (simp add: GracefulShutDown_def DefaultAwaitTimeout_def Second_def Let_def)
  moreover have "DefaultAwaitTimeout = 5 * Second"
    by (simp add: DefaultAwaitTimeout_def)
  ultimately show ?thesis
    using signalLoop_drain[of _ _ srv km mpid sigs] by blast
qed

theorem shutDown_fixed_timeout_witness:
  "E_ServerShutdown ex_server 7000000000
     \<in> set (snd (signalLoop ex_srv False 4000
                   [(SIGUSR1, ex_os), (SIGTERM, ex_os\<lparr>Now := 2000000000\<rparr>)]))
   \<and> ex_server = Server ex_srv
   \<and> shutDown (ex_os\<lparr>Now := 2000000000\<rparr>) ex_srv =
       (None, [Enter_shutDown, E_Log (InfoDeadline 7000000000),
               E_ServerShutdown ex_server 7000000000, E_Cancel])"
proof -
  let ?w = "ex_os\<lparr>Now := 2000000000\<rparr>"
  have s: "shutDown ?w ex_srv =
       (None, [Enter_shutDown, E_Log (InfoDeadline 7000000000),
               E_ServerShutdown ex_server 7000000000, E_Cancel])"
    using shutDown_fixed_timeout[of ?w ex_srv]
    by (simp add: ex_os_def ex_srv_def)
  have m: "E_ServerShutdown ex_server 7000000000
     \<in> set (snd (signalLoop ex_srv False 4000 [(SIGUSR1, ex_os), (SIGTERM, ?w)]))"
    by (simp add: loop_usr loop_term s)
  from shutDown_fixed_timeout[of ?w ex_srv _ False 4000 "[(SIGUSR1, ex_os), (SIGTERM, ?w)]"] m
  have "ex_server = Server ex_srv" by blast
  with s m show ?thesis by simp
qed

text \<open>
  C5 as stated fails: there is no override. No call of \<^verbatim>\<open>shutDown\<close> or of
  \<^verbatim>\<open>GracefulShutDown\<close> drains until ten seconds from now, say.
\<close>

theorem shutDown_override_counterexample:
  "\<not> (\<exists>w srv server.
        E_ServerShutdown (Server srv) (Now w + 10 * Second) \<in> set (snd (shutDown w srv))
        \<or> E_ServerShutdown server (Now w + 10 * Second) \<in> set (snd (GracefulShutDown w server)))"
  by (simp add: shutDown_def GracefulShutDown_def DefaultAwaitTimeout_def Second_def Let_def)

subsection \<open>The JSON round trip\<close>

lemma mod_offset: "x < m \<Longrightarrow> (k * m + x) mod m = (x::nat)"
  by simp

lemma enc2:
  assumes "0xC2 \<le> p0" "p0 \<le> 0xDF" "0x80 \<le> b1" "b1 \<le> 0xBF"
  shows "utf8_EncodeRune ((p0 mod 32) * 64 + b1 mod 64) = [p0, b1::nat]"
proof -
  define x where "x = p0 - 0xC0"
  define y where "y = b1 - 0x80"
  have p0: "p0 = 6 * 32 + x" and x: "2 \<le> x" "x < 32" using assms by (simp_all add: x_def)
  have b1: "b1 = 2 * 64 + y" and y: "y < 64" using assms by (simp_all add: y_def)
  have m0: "p0 mod 32 = x" unfolding p0 using x(2) by (rule mod_offset)
  have m1: "b1 mod 64 = y" unfolding b1 using y by (rule mod_offset)
  have d: "(x * 64 + y) div 64 = x" "(x * 64 + y) mod 64 = y" using y by simp_all
  have r: "0x7F < x * 64 + y" "x * 64 + y \<le> 0x7FF" using x y by simp_all
  show ?thesis
    unfolding m0 m1 using r d by (simp add: utf8_EncodeRune_def p0 b1)
qed

lemma enc3:
  assumes "0xE0 \<le> p0" "p0 \<le> 0xEF" "fst (acceptRange p0) \<le> b1" "b1 \<le> snd (acceptRange p0)"
    "0x80 \<le> b2" "b2 \<le> 0xBF"
  shows "utf8_EncodeRune ((p0 mod 16) * 4096 + (b1 mod 64) * 64 + b2 mod 64) = [p0, b1, b2::nat]"
proof -
  define x where "x = p0 - 0xE0"
  define y where "y = b1 - 0x80"
  define z where "z = b2 - 0x80"
  have b1r: "0x80 \<le> b1" "b1 \<le> 0xBF"
    using assms by (auto simp: acceptRange_def split: if_splits)
  have p0: "p0 = 14 * 16 + x" and x: "x < 16" using assms by (simp_all add: x_def)
  have b1: "b1 = 2 * 64 + y" and y: "y < 64" using b1r by (simp_all add: y_def)
  have b2: "b2 = 2 * 64 + z" and z: "z < 64" using assms by (simp_all add: z_def)
  have lo: "32 \<le> y" if "x = 0" using assms(3) that by (simp add: acceptRange_def p0 b1)
  have hi: "y < 32" if "x = 13" using assms(4) that by (simp add: acceptRange_def p0 b1)
  have m0: "p0 mod 16 = x" unfolding p0 using x by (rule mod_offset)
  have m1: "b1 mod 64 = y" unfolding b1 using y by (rule mod_offset)
  have m2: "b2 mod 64 = z" unfolding b2 using z by (rule mod_offset)
  let ?r = "x * 4096 + y * 64 + z"
  have r64: "?r = (x * 64 + y) * 64 + z" by simp
  have d1: "?r div 4096 = x" using y z by simp
  have d2: "?r div 64 = x * 64 + y" using z by simp
  have d3: "?r mod 64 = z" unfolding r64 using z by (rule mod_offset)
  have d4: "(x * 64 + y) mod 64 = y" using y by (rule mod_offset)
  have r1: "0x7FF < ?r"
  proof (cases "x = 0")
    case True with lo show ?thesis by simp
  next
    case False then have "1 \<le> x" by simp
    then have "4096 \<le> x * 4096" by simp
    then show ?thesis by simp
  qed
  have r2: "?r \<le> 0xFFFF" using x y z by simp
  have r3: "\<not> (0xD800 \<le> ?r \<and> ?r \<le> 0xDFFF)"
  proof (cases "x = 13")
    case True with hi z show ?thesis by simp
  next
    case False
    then consider "x \<le> 12" | "14 \<le> x" by linarith
    then show ?thesis
    proof cases
      case 1
      then have "x * 4096 \<le> 12 * 4096" by (rule mult_le_mono1)
      with y z show ?thesis by simp
    next
      case 2
      then have "14 * 4096 \<le> x * 4096" by (rule mult_le_mono1)
      then show ?thesis by simp
    qed
  qed
  show ?thesis
    unfolding m0 m1 m2 using r1 r2 r3 y z by (simp add: utf8_EncodeRune_def d1 d2 d3 d4) (simp add: p0 b1 b2)
qed

lemma enc4:
  assumes "0xF0 \<le> p0" "p0 \<le> 0xF4" "fst (acceptRange p0) \<le> b1" "b1 \<le> snd (acceptRange p0)"
    "0x80 \<le> b2" "b2 \<le> 0xBF" "0x80 \<le> b3" "b3 \<le> 0xBF"
  shows "utf8_EncodeRune ((p0 mod 8) * 262144 + (b1 mod 64) * 4096 + (b2 mod 64) * 64 + b3 mod 64)
           = [p0, b1, b2, b3::nat]"
proof -
  define x where "x = p0 - 0xF0"
  define y where "y = b1 - 0x80"
  define z where "z = b2 - 0x80"
  define u where "u = b3 - 0x80"
  have b1r: "0x80 \<le> b1" "b1 \<le> 0xBF"
    using assms by (auto simp: acceptRange_def split: if_splits)
  have p0: "p0 = 30 * 8 + x" and x: "x < 5" using assms by (simp_all add: x_def)
  have b1: "b1 = 2 * 64 + y" and y: "y < 64" using b1r by (simp_all add: y_def)
  have b2: "b2 = 2 * 64 + z" and z: "z < 64" using assms by (simp_all add: z_def)
  have b3: "b3 = 2 * 64 + u" and u: "u < 64" using assms by (simp_all add: u_def)
  have lo: "16 \<le> y" if "x = 0" using assms(3) that by (simp add: acceptRange_def p0 b1)
  have hi: "y < 16" if "x = 4" using assms(4) that by (simp add: acceptRange_def p0 b1)
  have x8: "x < 8" using x by simp
  have m0: "p0 mod 8 = x" unfolding p0 using x8 by (rule mod_offset)
  have m1: "b1 mod 64 = y" unfolding b1 using y by (rule mod_offset)
  have m2: "b2 mod 64 = z" unfolding b2 using z by (rule mod_offset)
  have m3: "b3 mod 64 = u" unfolding b3 using u by (rule mod_offset)
  let ?r = "x * 262144 + y * 4096 + z * 64 + u"
  have r64: "?r = (x * 4096 + y * 64 + z) * 64 + u" by simp
  have d1: "?r div 262144 = x" using y z u by simp
  have d2: "?r div 4096 = x * 64 + y" using z u by simp
  have d3: "?r div 64 = x * 4096 + y * 64 + z" using u by simp
  have d4: "?r mod 64 = u" unfolding r64 using u by (rule mod_offset)
  have d5: "(x * 64 + y) mod 64 = y" using y by (rule mod_offset)
  have d6: "(x * 4096 + y * 64 + z) mod 64 = z"
  proof -
    have "x * 4096 + y * 64 + z = (x * 64 + y) * 64 + z" by simp
    then show ?thesis using z by (simp only: mod_offset)
  qed
  have r1: "0xFFFF < ?r"
  proof (cases "x = 0")
    case True with lo show ?thesis by simp
  next
    case False then have "1 \<le> x" by simp
    then have "262144 \<le> x * 262144" by simp
    then show ?thesis by simp
  qed
  have r2: "?r \<le> 0x10FFFF"
  proof (cases "x = 4")
    case True with hi z u show ?thesis by simp
  next
    case False
    with x have "x \<le> 3" by simp
    then have "x * 262144 \<le> 3 * 262144" by (rule mult_le_mono1)
    with y z u show ?thesis by simp
  qed
  show ?thesis
    unfolding m0 m1 m2 m3 using r1 r2 y z u
    by (simp add: utf8_EncodeRune_def d1 d2 d3 d4 d5 d6) (simp add: p0 b1 b2 b3)
qed


lemma runeSize_cases:
  "runeSize p0 = 0 \<or> runeSize p0 = 1 \<or> runeSize p0 = 2 \<or> runeSize p0 = 3 \<or> runeSize p0 = 4"
  by (simp add: runeSize_def)

lemma decode2:
  assumes "runeSize p0 = 2" "utf8_DecodeRune (p0 # p) = (r, n)" "\<not> (r = RuneError \<and> n = 1)"
  shows "\<exists>b1 p'. p = b1 # p' \<and> n = 2 \<and> 0x80 \<le> b1 \<and> b1 \<le> 0xBF
            \<and> 0xC2 \<le> p0 \<and> p0 \<le> 0xDF \<and> r = (p0 mod 32) * 64 + b1 mod 64"
  using assms
  by (cases p) (auto simp: Let_def runeSize_def acceptRange_def split: if_splits)

lemma decode3:
  assumes "runeSize p0 = 3" "utf8_DecodeRune (p0 # p) = (r, n)" "\<not> (r = RuneError \<and> n = 1)"
  shows "\<exists>b1 b2 p'. p = b1 # b2 # p' \<and> n = 3
            \<and> fst (acceptRange p0) \<le> b1 \<and> b1 \<le> snd (acceptRange p0)
            \<and> 0x80 \<le> b2 \<and> b2 \<le> 0xBF \<and> 0xE0 \<le> p0 \<and> p0 \<le> 0xEF
            \<and> r = (p0 mod 16) * 4096 + (b1 mod 64) * 64 + b2 mod 64"
proof -
  from assms(1) have p0: "0xE0 \<le> p0" "p0 \<le> 0xEF"
    by (auto simp: runeSize_def split: if_splits)
  from assms obtain b1 b2 p' where p: "p = b1 # b2 # p'"
    by (cases p; cases "tl p") (auto simp: Let_def)
  from assms show ?thesis
    unfolding p using p0
    by (auto simp: Let_def contByte_def split: if_splits)
qed

lemma decode4:
  assumes "runeSize p0 = 4" "utf8_DecodeRune (p0 # p) = (r, n)" "\<not> (r = RuneError \<and> n = 1)"
  shows "\<exists>b1 b2 b3 p'. p = b1 # b2 # b3 # p' \<and> n = 4
            \<and> fst (acceptRange p0) \<le> b1 \<and> b1 \<le> snd (acceptRange p0)
            \<and> 0x80 \<le> b2 \<and> b2 \<le> 0xBF \<and> 0x80 \<le> b3 \<and> b3 \<le> 0xBF
            \<and> 0xF0 \<le> p0 \<and> p0 \<le> 0xF4
            \<and> r = (p0 mod 8) * 262144 + (b1 mod 64) * 4096 + (b2 mod 64) * 64 + b3 mod 64"
proof -
  from assms(1) have p0: "0xF0 \<le> p0" "p0 \<le> 0xF4"
    by (auto simp: runeSize_def split: if_splits)
  from assms obtain b1 b2 b3 p' where p: "p = b1 # b2 # b3 # p'"
    by (cases p; cases "tl p"; cases "tl (tl p)") (auto simp: Let_def)
  from assms show ?thesis
    unfolding p using p0
    by (auto simp: Let_def contByte_def split: if_splits)
qed

text \<open>A well-formed encoding of more than one byte: encoding its code point gives the
  bytes back, and decoding reads no further than them.\<close>

lemma decode_wellformed:
  assumes d: "utf8_DecodeRune (p0 # p) = (r, n)" and v: "\<not> (r = RuneError \<and> n = 1)"
    and hi: "0x80 \<le> p0"
  shows "2 \<le> n \<and> n - 1 \<le> length p \<and> utf8_EncodeRune r = p0 # take (n - 1) p
           \<and> (\<forall>q. utf8_DecodeRune (p0 # take (n - 1) p @ q) = (r, n))
           \<and> (\<forall>b \<in> set (take (n - 1) p). 0x80 \<le> b)"
proof -
  have n01: "runeSize p0 \<noteq> 0" "runeSize p0 \<noteq> 1"
    using d v hi by (auto simp: Let_def runeSize_def split: if_splits)
  with runeSize_cases[of p0] consider "runeSize p0 = 2" | "runeSize p0 = 3" | "runeSize p0 = 4"
    by blast
  then show ?thesis
  proof cases
    case 1
    from decode2[OF 1 d v] obtain b1 p' where *: "p = b1 # p'" "n = 2" "0x80 \<le> b1" "b1 \<le> 0xBF"
      "0xC2 \<le> p0" "p0 \<le> 0xDF" "r = (p0 mod 32) * 64 + b1 mod 64" by blast
    have a: "acceptRange p0 = (0x80, 0xBF)" using * by (simp add: acceptRange_def)
    show ?thesis
      using * enc2[OF *(5,6,3,4)] 1 by (simp add: Let_def a)
  next
    case 2
    from decode3[OF 2 d v] obtain b1 b2 p' where *: "p = b1 # b2 # p'" "n = 3"
      "fst (acceptRange p0) \<le> b1" "b1 \<le> snd (acceptRange p0)"
      "0x80 \<le> b2" "b2 \<le> 0xBF" "0xE0 \<le> p0" "p0 \<le> 0xEF"
      "r = (p0 mod 16) * 4096 + (b1 mod 64) * 64 + b2 mod 64" by blast
    have b1: "0x80 \<le> b1" using *(3) by (auto simp: acceptRange_def split: if_splits)
    show ?thesis
      using * enc3[OF *(7,8,3,4,5,6)] 2 b1 by (simp add: Let_def contByte_def)
  next
    case 3
    from decode4[OF 3 d v] obtain b1 b2 b3 p' where *: "p = b1 # b2 # b3 # p'" "n = 4"
      "fst (acceptRange p0) \<le> b1" "b1 \<le> snd (acceptRange p0)"
      "0x80 \<le> b2" "b2 \<le> 0xBF" "0x80 \<le> b3" "b3 \<le> 0xBF" "0xF0 \<le> p0" "p0 \<le> 0xF4"
      "r = (p0 mod 8) * 262144 + (b1 mod 64) * 4096 + (b2 mod 64) * 64 + b3 mod 64" by blast
    have b1: "0x80 \<le> b1" using *(3) by (auto simp: acceptRange_def split: if_splits)
    show ?thesis
      using * enc4[OF *(9,10,3,4,5,6,7,8)] 3 b1 by (simp add: Let_def contByte_def)
  qed
qed


lemma prepend_Some [simp]: "prepend xs (Some (v, rest)) = Some (xs @ v, rest)"
  by (simp add: prepend_def)




lemma toValidUTF8_valid: "utf8_ValidString s \<Longrightarrow> toValidUTF8 s = s"
proof (induction s rule: toValidUTF8.induct)
  case 1
  then show ?case by simp
next
  case (2 c cs)
  show ?case
  proof (cases "of_char c < (0x80::nat)")
    case True
    with 2 show ?thesis by simp
  next
    case False
    obtain r n where d: "utf8_DecodeRune (map of_char (c # cs)) = (r, n)"
      by (cases "utf8_DecodeRune (map of_char (c # cs))")
    from "2.prems" False d have v: "\<not> (r = RuneError \<and> n = 1)"
      and rest: "utf8_ValidString (drop (n - 1) cs)"
      by (simp_all del: utf8_DecodeRune.simps list.map)
    from "2.IH"(3)[OF False d[symmetric] refl v rest]
    have "toValidUTF8 (drop (n - 1) cs) = drop (n - 1) cs" .
    with False d v show ?thesis
      by (auto simp del: utf8_DecodeRune.simps list.map)
  qed
qed

lemma hexval_hex: "k < 16 \<Longrightarrow> hexval (hex ! k) = Some k"
proof -
  assume "k < 16"
  then have "k \<in> {0, 1, 2, 3, 4, 5, 6, 7, 8, 9, 10, 11, 12, 13, 14, 15}" by simp presburger
  then show ?thesis
    by (elim insertE emptyE) (simp_all add: hex_def hexval_def)
qed

lemma getu4_hex:
  assumes "a < 16" "b < 16" "c < 16" "d < 16"
  shows "getu4 (bslash # CHR ''u'' # hex ! a # hex ! b # hex ! c # hex ! d # Z)
           = Some (((a * 16 + b) * 16 + c) * 16 + d)"
  by (simp only: getu4.simps hexval_hex[OF assms(1)] hexval_hex[OF assms(2)]
        hexval_hex[OF assms(3)] hexval_hex[OF assms(4)] simp_thms if_False
        prod.case option.case)


declare getu4.simps [simp del]

lemma bslash_neq [simp]: "bslash \<noteq> dquote" "dquote \<noteq> bslash" "bslash \<noteq> CHR ''u''"
  by (simp_all add: bslash_def dquote_def)

lemma unquote_plain:
  assumes "c \<noteq> dquote" "c \<noteq> bslash" "(0x20::nat) \<le> of_char c" "of_char c < (0x80::nat)"
  shows "unquote (c # X) = prepend [c] (unquote X)"
  using assms by simp

lemma unquote_u:
  assumes "a < 16" "b < 16" "c < 16" "d < 16"
    and "\<not> IsSurrogate (((a * 16 + b) * 16 + c) * 16 + d)"
  shows "unquote (bslash # CHR ''u'' # hex ! a # hex ! b # hex ! c # hex ! d # Z)
           = prepend (rune_bytes (((a * 16 + b) * 16 + c) * 16 + d)) (unquote Z)"
  using assms(5) by (simp add: getu4_hex[OF assms(1-4)])

lemma unquote_simple:
  assumes "simple_escape e = Some b" "e \<noteq> CHR ''u''"
  shows "unquote (bslash # e # Z) = prepend [b] (unquote Z)"
  using assms by simp

lemma unquote_fffd:
  "unquote (bslash # ''ufffd'' @ Z) = prepend (rune_bytes RuneError) (unquote Z)"
proof -
  have "bslash # ''ufffd'' @ Z = bslash # CHR ''u'' # hex ! 15 # hex ! 15 # hex ! 15 # hex ! 13 # Z"
    by (simp add: hex_def)
  moreover have "\<not> IsSurrogate (((15 * 16 + 15) * 16 + 15) * 16 + 13)"
    by (simp add: IsSurrogate_def)
  moreover have "((15 * 16 + 15) * 16 + 15) * 16 + 13 = RuneError"
    by (simp add: RuneError_def)
  ultimately show ?thesis
    using unquote_u[of 15 15 15 13 Z] by simp
qed

lemma unquote_202x:
  assumes "r = 0x2028 \<or> r = 0x2029"
  shows "unquote (bslash # ''u202'' @ [hex ! (r mod 16)] @ Z) = prepend (rune_bytes r) (unquote Z)"
proof -
  from assms have m: "r mod 16 < 16" and r: "r = ((2 * 16 + 0) * 16 + 2) * 16 + r mod 16"
    by auto
  have "bslash # ''u202'' @ [hex ! (r mod 16)] @ Z
          = bslash # CHR ''u'' # hex ! 2 # hex ! 0 # hex ! 2 # hex ! (r mod 16) # Z"
    by (simp add: hex_def)
  moreover have "\<not> IsSurrogate (((2 * 16 + 0) * 16 + 2) * 16 + r mod 16)"
    using assms by (auto simp add: IsSurrogate_def)
  ultimately show ?thesis
    using unquote_u[of 2 0 2 "r mod 16" Z] m r by simp
qed

lemma unquote_escape:
  assumes lt: "of_char c < (0x80::nat)" and ns: "\<not> htmlSafe c"
  shows "unquote (escape_byte c @ Z) = prepend [c] (unquote Z)"
proof -
  consider "c = bslash" | "c = dquote" | "c = CHR 0x0A" | "c = CHR 0x0D" | "c = CHR 0x09"
    | "c \<noteq> bslash" "c \<noteq> dquote" "c \<noteq> CHR 0x0A" "c \<noteq> CHR 0x0D" "c \<noteq> CHR 0x09"
    by blast
  then show ?thesis
  proof cases
    case 1
    then show ?thesis
      using unquote_simple[of bslash bslash Z]
      by (simp add: escape_byte_def simple_escape_def del: unquote.simps)
  next
    case 2
    then show ?thesis
      using unquote_simple[of dquote dquote Z]
      by (simp add: escape_byte_def simple_escape_def dquote_def del: unquote.simps)
  next
    case 3
    then show ?thesis
      using unquote_simple[of "CHR ''n''" "CHR 0x0A" Z]
      by (simp add: escape_byte_def simple_escape_def dquote_def bslash_def del: unquote.simps)
  next
    case 4
    then show ?thesis
      using unquote_simple[of "CHR ''r''" "CHR 0x0D" Z]
      by (simp add: escape_byte_def simple_escape_def dquote_def bslash_def del: unquote.simps)
  next
    case 5
    then show ?thesis
      using unquote_simple[of "CHR ''t''" "CHR 0x09" Z]
      by (simp add: escape_byte_def simple_escape_def dquote_def bslash_def del: unquote.simps)
  next
    case 6
    let ?n = "of_char c :: nat"
    have e: "escape_byte c = bslash # CHR ''u'' # hex ! 0 # hex ! 0 # hex ! (?n div 16)
                                # hex ! (?n mod 16) # []"
      using 6 by (simp add: escape_byte_def hex_def)
    have b: "?n div 16 < 16" "?n mod 16 < 16" using lt by simp_all
    have v: "((0 * 16 + 0) * 16 + ?n div 16) * 16 + ?n mod 16 = ?n" by simp
    have s: "\<not> IsSurrogate ?n" using lt by (simp add: IsSurrogate_def)
    have rb: "rune_bytes ?n = [c]" using lt by (simp add: rune_bytes_def utf8_EncodeRune_def)
    from unquote_u[of 0 0 "?n div 16" "?n mod 16" Z] b s
    show ?thesis
      unfolding e by (simp add: rb del: unquote.simps)
  qed
qed





lemma of_char_hi: "\<not> of_char c < (0x80::nat) \<Longrightarrow> c \<noteq> dquote \<and> c \<noteq> bslash \<and> \<not> of_char c < (0x20::nat)"
  by (auto simp: dquote_def bslash_def)

lemma unquote_multibyte:
  assumes hi: "\<not> of_char c < (0x80::nat)"
    and d: "utf8_DecodeRune (map of_char (c # cs)) = (r, n)"
    and v: "\<not> (r = RuneError \<and> n = 1)"
  shows "unquote (c # take (n - 1) cs @ Z) = prepend (c # take (n - 1) cs) (unquote Z)
         \<and> rune_bytes r = c # take (n - 1) cs \<and> n - 1 \<le> length cs"
proof -
  from hi have h: "0x80 \<le> (of_char c :: nat)" by simp
  from d have d': "utf8_DecodeRune (of_char c # map of_char cs) = (r, n)" by simp
  from decode_wellformed[OF d' v h]
  have n: "n - 1 \<le> length cs"
    and e: "utf8_EncodeRune r = of_char c # take (n - 1) (map of_char cs)"
    and q: "\<And>q. utf8_DecodeRune (of_char c # take (n - 1) (map of_char cs) @ q) = (r, n)"
    by simp_all
  have rb: "rune_bytes r = c # take (n - 1) cs"
    by (simp add: rune_bytes_def e take_map[symmetric] comp_def)
  have dq: "utf8_DecodeRune (map of_char (c # take (n - 1) cs @ Z)) = (r, n)"
    using q[of "map of_char Z"] by (simp add: take_map)
  have l: "drop (n - 1) (take (n - 1) cs @ Z) = Z"
    using n by simp
  have "unquote (c # take (n - 1) cs @ Z) = prepend (rune_bytes r) (unquote Z)"
    apply (subst unquote.simps(2))
    apply (simp only: of_char_hi[OF hi] hi if_False dq prod.case Let_def l)
    done
  with rb n show ?thesis by simp
qed


declare unquote.simps(2) [simp del]

text \<open>What the decoder reads back from an encoded string: the string made valid UTF-8.\<close>

lemma unquote_encode_chars:
  "unquote (encode_chars s @ dquote # rest) = Some (toValidUTF8 s, rest)"
proof (induction s rule: encode_chars.induct)
  case 1
  show ?case by (simp add: unquote.simps(2))
next
  case (2 c cs)
  show ?case
  proof (cases "of_char c < (0x80::nat)")
    case True
    note ih = "2.IH"(1)[OF True]
    have tv: "toValidUTF8 (c # cs) = c # toValidUTF8 cs"
      using True by simp
    show ?thesis
    proof (cases "htmlSafe c")
      case safe: True
      then have "c \<noteq> dquote" "c \<noteq> bslash" "(0x20::nat) \<le> of_char c"
        by (simp_all add: htmlSafe_def)
      note st = unquote_plain[OF this True, of "encode_chars cs @ dquote # rest"]
      have enc: "encode_chars (c # cs) = c # encode_chars cs"
        using True safe by simp
      show ?thesis unfolding enc tv using st by (simp add: ih)
    next
      case False
      note st = unquote_escape[OF True False, of "encode_chars cs @ dquote # rest"]
      have enc: "encode_chars (c # cs) = escape_byte c @ encode_chars cs"
        using True False by simp
      show ?thesis unfolding enc tv using st by (simp add: ih)
    qed
  next
    case False
    obtain r n where d: "utf8_DecodeRune (map of_char (c # cs)) = (r, n)"
      by (cases "utf8_DecodeRune (map of_char (c # cs))")
    show ?thesis
    proof (cases "r = RuneError \<and> n = 1")
      case True
      note ih = "2.IH"(2)[OF False refl d[symmetric] True]
      have enc: "encode_chars (c # cs) = bslash # ''ufffd'' @ encode_chars cs"
        using False d True by (simp del: utf8_DecodeRune.simps list.map)
      have tv: "toValidUTF8 (c # cs) = rune_bytes RuneError @ toValidUTF8 cs"
        using False d True by (simp del: utf8_DecodeRune.simps list.map)
      show ?thesis
        unfolding enc tv
        using unquote_fffd[of "encode_chars cs @ dquote # rest"] by (simp add: ih)
    next
      case v: False
      from unquote_multibyte[OF False d v]
      have mb: "\<And>Z. unquote (c # take (n - 1) cs @ Z) = prepend (c # take (n - 1) cs) (unquote Z)"
        and rb: "rune_bytes r = c # take (n - 1) cs"
        by simp_all
      have tv: "toValidUTF8 (c # cs) = c # take (n - 1) cs @ toValidUTF8 (drop (n - 1) cs)"
        using False d v by (auto simp del: utf8_DecodeRune.simps list.map)
      show ?thesis
      proof (cases "r = 0x2028 \<or> r = 0x2029")
        case True
        note ih = "2.IH"(3)[OF False refl d[symmetric] v True]
        have enc: "encode_chars (c # cs)
                = bslash # ''u202'' @ [hex ! (r mod 16)] @ encode_chars (drop (n - 1) cs)"
          using False d v True by (auto simp del: utf8_DecodeRune.simps list.map)
        show ?thesis
          unfolding enc tv
          using unquote_202x[OF True, of "encode_chars (drop (n - 1) cs) @ dquote # rest"] ih
          by (simp add: rb)
      next
        case ls: False
        note ih = "2.IH"(4)[OF False refl d[symmetric] v ls]
        have enc: "encode_chars (c # cs) = c # take (n - 1) cs @ encode_chars (drop (n - 1) cs)"
          using False d v ls by (auto simp del: utf8_DecodeRune.simps list.map)
        show ?thesis
          unfolding enc tv
          using mb[of "encode_chars (drop (n - 1) cs) @ dquote # rest"] ih
          by simp
      qed
    qed
  qed
qed




lemma dquote_not [simp]:
  "\<not> isSpace dquote" "dquote \<noteq> CHR ''{''" "dquote \<noteq> CHR ''}''" "dquote \<noteq> CHR ''[''"
  "dquote \<noteq> CHR '']''" "dquote \<noteq> CHR '':''" "dquote \<noteq> CHR '',''"
  by (simp_all add: dquote_def isSpace_def)

lemma lex_string: "lex (encode_string s @ rest) = cons_tok (TStr (toValidUTF8 s)) (lex rest)"
  by (simp add: encode_string_def unquote_encode_chars)

lemma lex_punct:
  "lex (CHR ''{'' # rest) = cons_tok TLBrace (lex rest)"
  "lex (CHR ''}'' # rest) = cons_tok TRBrace (lex rest)"
  "lex (CHR '':'' # rest) = cons_tok TColon (lex rest)"
  "lex (CHR '','' # rest) = cons_tok TComma (lex rest)"
  by (simp_all add: isSpace_def)

lemma lex_three: "lex (CHR ''3'' # CHR '','' # rest) = cons_tok (TNum ''3'') (lex (CHR '','' # rest))"
  by (simp add: isSpace_def isDigit_def dquote_def lex_number_def lex_digits_def lex_frac_def
        lex_exp_def)

declare lex.simps(2) [simp del]

lemma cons_tok_Some [simp]: "cons_tok t (Some ts) = Some (t # ts)"
  by (simp add: cons_tok_def)

lemma toValidUTF8_keys [simp]:
  "toValidUTF8 ''addr'' = ''addr''" "toValidUTF8 ''FD'' = ''FD''" "toValidUTF8 ''Name'' = ''Name''"
  by simp_all

lemma encode_int_3: "encode_int 3 = ''3''"
  by (simp add: encode_int_def dec_nat.simps)

lemma lex_marshal:
  "lex (''{'' @ encode_string ''addr'' @ '':'' @ encode_string a
          @ '','' @ encode_string ''FD'' @ '':'' @ ''3''
          @ '','' @ encode_string ''Name'' @ '':'' @ encode_string n @ ''}'')
     = Some [TLBrace, TStr ''addr'', TColon, TStr (toValidUTF8 a), TComma,
             TStr ''FD'', TColon, TNum ''3'', TComma,
             TStr ''Name'', TColon, TStr (toValidUTF8 n), TRBrace]"
  by (simp add: lex_string lex_punct lex_three)

lemma ParseInt_3: "ParseInt ''3'' = Some 3"
  by (simp add: ParseInt_def isDigit_def digitsValue_def)

lemma store_fields:
  "foldl storeField (Some \<lparr>ldAddr = [], FD = 0, Name = []\<rparr>)
     [(''addr'', JString a), (''FD'', JNumber ''3''), (''Name'', JString n)]
     = Some \<lparr>ldAddr = a, FD = 3, Name = n\<rparr>"
  by (simp add: storeField_def equalFold_def toLower_def ParseInt_3)

text \<open>The round trip through JSON of the descriptor a fork writes.\<close>

lemma json_round_trip:
  assumes "json_Marshal \<lparr>ldAddr = a, FD = 3, Name = n\<rparr> = Inr payload"
  shows "json_Unmarshal payload = Inr \<lparr>ldAddr = toValidUTF8 a, FD = 3, Name = toValidUTF8 n\<rparr>"
proof -
  from assms have p: "payload = ''{'' @ encode_string ''addr'' @ '':'' @ encode_string a
          @ '','' @ encode_string ''FD'' @ '':'' @ ''3''
          @ '','' @ encode_string ''Name'' @ '':'' @ encode_string n @ ''}''"
    by (simp add: json_Marshal_def encode_int_3)
  have "parse_json payload = Some (JObject [(''addr'', JString (toValidUTF8 a)),
          (''FD'', JNumber ''3''), (''Name'', JString (toValidUTF8 n))])"
    unfolding p parse_json_def lex_marshal
    by (simp add: pushFrame_def maxNestingDepth_def)
  with store_fields[of "toValidUTF8 a" "toValidUTF8 n"] show ?thesis
    by (simp add: json_Unmarshal_def)
qed

lemma payload_nonempty:
  "json_Marshal l = Inr payload \<Longrightarrow> payload \<noteq> []"
  by (auto simp: json_Marshal_def)




lemma ex_unmarshal:
  "json_Unmarshal ex_payload = Inr \<lparr>ldAddr = '':8080'', FD = 3, Name = ''tcp:[::]:8080->''\<rparr>"
  using json_round_trip[OF ex_marshal] by simp

lemma ex_unmarshal_garbled: "json_Unmarshal ''{addr'' = Inl (LibError ''json: invalid input'')"
  by (simp add: json_Unmarshal_def parse_json_def lex_punct lex.simps(2) isSpace_def isDigit_def
        dquote_def cons_tok_def)

subsection \<open>Listener acquisition\<close>

lemma importListener_ok:
  assumes "json_Unmarshal env = Inr fl" "ldAddr fl = Addr srv"
    "os_NewFile w (FD fl) (Name fl) = Some f" "net_FileListener f = Inr l"
  shows "importListener w srv env =
           (None, srv\<lparr>Listener := Some l\<rparr>,
            [Enter_importListener env, E_NewFile (FD fl) (Name fl), E_FileListener f,
             E_FileClose f])"
  using assms by (simp add: importListener_def)

lemma importListener_frame:
  "Addr (fst (snd (importListener w srv env))) = Addr srv
   \<and> Server (fst (snd (importListener w srv env))) = Server srv
   \<and> PID (fst (snd (importListener w srv env))) = PID srv
   \<and> fresh_creations (snd (snd (importListener w srv env))) = 0"
  by (simp add: importListener_def split: sum.splits option.splits)

lemma newListener_frame:
  "Addr (fst (snd (newListener w srv))) = Addr srv
   \<and> Server (fst (snd (newListener w srv))) = Server srv
   \<and> PID (fst (snd (newListener w srv))) = PID srv
   \<and> fresh_creations (snd (snd (newListener w srv))) = 1"
  by (simp add: newListener_def split: sum.splits)

lemma newListener_addr:
  "Addr srv' = Addr srv \<Longrightarrow> fst (newListener w srv') = fst (newListener w srv)"
  by (simp add: newListener_def split: sum.splits)

lemma createListener_fresh_facts:
  "fst (createListener_fresh w srv evs) = fst (newListener w srv)
   \<and> fresh_creations (snd (snd (createListener_fresh w srv evs))) = fresh_creations evs + 1
   \<and> set evs \<subseteq> set (snd (snd (createListener_fresh w srv evs)))
   \<and> Addr (fst (snd (createListener_fresh w srv evs))) = Addr srv
   \<and> Server (fst (snd (createListener_fresh w srv evs))) = Server srv
   \<and> PID (fst (snd (createListener_fresh w srv evs))) = PID srv"
  using newListener_frame[of w srv]
  by (cases "newListener w srv") (auto simp: createListener_fresh_def split: option.splits)

lemma createListener_import_fails:
  assumes "Getenv w DefaultEnvVar = env" "env \<noteq> []" "fst (importListener w srv env) = Some err"
  shows "E_Log (InfoImportFailed err) \<in> set (snd (snd (createListener w srv)))
     \<and> fresh_creations (snd (snd (createListener w srv))) = 1
     \<and> fst (createListener w srv) = fst (newListener w srv)"
proof -
  obtain srv' evs where i: "importListener w srv env = (Some err, srv', evs)"
    using assms(3) by (cases "importListener w srv env") auto
  from importListener_frame[of w srv env] i
  have f: "Addr srv' = Addr srv" "fresh_creations evs = 0" by simp_all
  have c: "createListener w srv
             = createListener_fresh w srv' (evs @ [E_Log (InfoImportFailed err)])"
    using assms(1,2) i by (simp add: createListener_def)
  from createListener_fresh_facts[of w srv' "evs @ [E_Log (InfoImportFailed err)]"] f
  show ?thesis
    unfolding c using newListener_addr[OF f(1), of w] by auto
qed

lemma createListener_frame:
  "Addr (fst (snd (createListener w srv))) = Addr srv
   \<and> Server (fst (snd (createListener w srv))) = Server srv
   \<and> PID (fst (snd (createListener w srv))) = PID srv"
proof (cases "Getenv w DefaultEnvVar = []")
  case True
  then show ?thesis
    using createListener_fresh_facts[of w srv "[]"] by (simp add: createListener_def)
next
  case False
  obtain r srv' evs where i: "importListener w srv (Getenv w DefaultEnvVar) = (r, srv', evs)"
    by (cases "importListener w srv (Getenv w DefaultEnvVar)")
  from importListener_frame[of w srv "Getenv w DefaultEnvVar"] i
  have f: "Addr srv' = Addr srv" "Server srv' = Server srv" "PID srv' = PID srv" by simp_all
  show ?thesis
  proof (cases r)
    case None
    with False i f show ?thesis by (simp add: createListener_def)
  next
    case (Some err)
    with False i f
      createListener_fresh_facts[of w srv' "evs @ [E_Log (InfoImportFailed err)]"]
    show ?thesis by (simp add: createListener_def)
  qed
qed




lemma importListener_fails:
  "json_Unmarshal env = Inl e \<Longrightarrow> fst (importListener w srv env) = Some (UnmarshalFailed env)"
  "json_Unmarshal env = Inr fl \<Longrightarrow> ldAddr fl \<noteq> Addr srv
     \<Longrightarrow> fst (importListener w srv env) = Some (ListenerNotFound (Addr srv))"
  "json_Unmarshal env = Inr fl \<Longrightarrow> ldAddr fl = Addr srv
     \<Longrightarrow> os_NewFile w (FD fl) (Name fl) = None
     \<Longrightarrow> fst (importListener w srv env) = Some (ListenerFileFailed (Name fl))"
  "json_Unmarshal env = Inr fl \<Longrightarrow> ldAddr fl = Addr srv
     \<Longrightarrow> os_NewFile w (FD fl) (Name fl) = Some f \<Longrightarrow> net_FileListener f = Inl e'
     \<Longrightarrow> fst (importListener w srv env) = Some e'"
  by (simp_all add: importListener_def)

text \<open>
  C3, as the code has it. For a process started with a payload in the environment
  variable: if the payload parses, its address is the requested one and a listener can
  be built on the descriptor it names (\<^verbatim>\<open>os.NewFile\<close> gives a file and
  \<^verbatim>\<open>net.FileListener\<close> a listener), acquisition returns that listener and never
  calls fresh creation. If the payload is malformed, or its address is another one, or
  no listener can be built on the descriptor, acquisition logs the failure and falls
  back to fresh creation, exactly once, and returns what fresh creation returns.
\<close>

theorem createListener_by_payload:
  assumes "Getenv w DefaultEnvVar = env" and "env \<noteq> []"
  shows
    "(\<forall>fl f l. json_Unmarshal env = Inr fl \<and> ldAddr fl = Addr srv
         \<and> os_NewFile w (FD fl) (Name fl) = Some f \<and> net_FileListener f = Inr l \<longrightarrow>
       createListener w srv =
         (None, srv\<lparr>Listener := Some l\<rparr>,
          [Enter_importListener env, E_NewFile (FD fl) (Name fl), E_FileListener f,
           E_FileClose f, E_Log InfoImported])
       \<and> fresh_creations (snd (snd (createListener w srv))) = 0)
     \<and> ((\<exists>e. json_Unmarshal env = Inl e)
         \<or> (\<exists>fl. json_Unmarshal env = Inr fl
               \<and> (ldAddr fl \<noteq> Addr srv
                  \<or> os_NewFile w (FD fl) (Name fl) = None
                  \<or> (\<exists>f e. os_NewFile w (FD fl) (Name fl) = Some f
                         \<and> net_FileListener f = Inl e))) \<longrightarrow>
       (\<exists>err. fst (importListener w srv env) = Some err
           \<and> E_Log (InfoImportFailed err) \<in> set (snd (snd (createListener w srv))))
       \<and> fresh_creations (snd (snd (createListener w srv))) = 1
       \<and> fst (createListener w srv) = fst (newListener w srv))"
proof (intro conjI allI impI)
  fix fl f l
  assume a: "json_Unmarshal env = Inr fl \<and> ldAddr fl = Addr srv
         \<and> os_NewFile w (FD fl) (Name fl) = Some f \<and> net_FileListener f = Inr l"
  then have i: "importListener w srv env =
           (None, srv\<lparr>Listener := Some l\<rparr>,
            [Enter_importListener env, E_NewFile (FD fl) (Name fl), E_FileListener f,
             E_FileClose f])"
    by (intro importListener_ok) simp_all
  show c: "createListener w srv =
         (None, srv\<lparr>Listener := Some l\<rparr>,
          [Enter_importListener env, E_NewFile (FD fl) (Name fl), E_FileListener f,
           E_FileClose f, E_Log InfoImported])"
    using assms i by (simp add: createListener_def)
  show "fresh_creations (snd (snd (createListener w srv))) = 0"
    unfolding c by simp
next
  assume b: "(\<exists>e. json_Unmarshal env = Inl e)
         \<or> (\<exists>fl. json_Unmarshal env = Inr fl
               \<and> (ldAddr fl \<noteq> Addr srv
                  \<or> os_NewFile w (FD fl) (Name fl) = None
                  \<or> (\<exists>f e. os_NewFile w (FD fl) (Name fl) = Some f
                         \<and> net_FileListener f = Inl e)))"
  have "\<exists>err. fst (importListener w srv env) = Some err"
  proof (cases "json_Unmarshal env")
    case (Inl e)
    then show ?thesis by (simp add: importListener_fails(1))
  next
    case (Inr fl)
    show ?thesis
    proof (cases "ldAddr fl = Addr srv")
      case False
      with Inr show ?thesis by (simp add: importListener_fails(2))
    next
      case True
      with b Inr have "os_NewFile w (FD fl) (Name fl) = None
          \<or> (\<exists>f e. os_NewFile w (FD fl) (Name fl) = Some f \<and> net_FileListener f = Inl e)"
        by auto
      with Inr True show ?thesis
        by (auto simp: importListener_fails(3) importListener_fails(4))
    qed
  qed
  then obtain err where e: "fst (importListener w srv env) = Some err" ..
  from createListener_import_fails[OF assms e] e
  show "\<exists>err. fst (importListener w srv env) = Some err
           \<and> E_Log (InfoImportFailed err) \<in> set (snd (snd (createListener w srv)))"
    and "fresh_creations (snd (snd (createListener w srv))) = 1"
    and "fst (createListener w srv) = fst (newListener w srv)"
    by blast+
qed

lemma ex_getenv:
  "Getenv ex_os_child DefaultEnvVar = ex_payload" "Getenv ex_os_stale DefaultEnvVar = ex_payload"
  "Getenv ex_os_garbled DefaultEnvVar = ''{addr''" "ex_payload \<noteq> []"
  by (simp_all add: ex_os_child_def ex_os_stale_def ex_os_garbled_def ex_os_def ex_payload_def)

theorem createListener_by_payload_witness:
  "createListener ex_os_child ex_srv0 =
     (None, ex_srv0\<lparr>Listener := Some (TCPListener 7)\<rparr>,
      [Enter_importListener ex_payload, E_NewFile 3 ''tcp:[::]:8080->'',
       E_FileListener (File ''tcp:[::]:8080->'' (Socket TCP 7)),
       E_FileClose (File ''tcp:[::]:8080->'' (Socket TCP 7)), E_Log InfoImported])
   \<and> fresh_creations (snd (snd (createListener ex_os_child ex_srv0))) = 0
   \<and> json_Unmarshal ''{addr'' = Inl (LibError ''json: invalid input'')
   \<and> E_Log (InfoImportFailed (UnmarshalFailed ''{addr''))
        \<in> set (snd (snd (createListener ex_os_garbled ex_srv0)))
   \<and> fresh_creations (snd (snd (createListener ex_os_garbled ex_srv0))) = 1
   \<and> fst (createListener ex_os_garbled ex_srv0) = None"
proof -
  have n: "os_NewFile ex_os_child 3 ''tcp:[::]:8080->''
             = Some (File ''tcp:[::]:8080->'' (Socket TCP 7))"
    by (simp add: os_NewFile_def ex_os_child_def ex_os_stale_def ex_os_def)
  have l: "net_FileListener (File ''tcp:[::]:8080->'' (Socket TCP 7)) = Inr (TCPListener 7)"
    by (simp add: net_FileListener_def)
  have a: "Addr ex_srv0 = '':8080''" by (simp add: ex_srv0_def)
  from createListener_by_payload[OF ex_getenv(1) ex_getenv(4), of ex_srv0] ex_unmarshal n l a
  have 1: "createListener ex_os_child ex_srv0 =
     (None, ex_srv0\<lparr>Listener := Some (TCPListener 7)\<rparr>,
      [Enter_importListener ex_payload, E_NewFile 3 ''tcp:[::]:8080->'',
       E_FileListener (File ''tcp:[::]:8080->'' (Socket TCP 7)),
       E_FileClose (File ''tcp:[::]:8080->'' (Socket TCP 7)), E_Log InfoImported])
   \<and> fresh_creations (snd (snd (createListener ex_os_child ex_srv0))) = 0"
    by simp
  have g: "''{addr'' \<noteq> []" by simp
  have i: "fst (importListener ex_os_garbled ex_srv0 ''{addr'') = Some (UnmarshalFailed ''{addr'')"
    by (simp add: importListener_def ex_unmarshal_garbled)
  have nl: "fst (newListener ex_os_garbled ex_srv0) = None"
    by (simp add: newListener_def ex_os_garbled_def ex_os_def)
  from createListener_by_payload[OF ex_getenv(3) g, of ex_srv0] ex_unmarshal_garbled i nl
  have 2: "E_Log (InfoImportFailed (UnmarshalFailed ''{addr''))
        \<in> set (snd (snd (createListener ex_os_garbled ex_srv0)))
   \<and> fresh_creations (snd (snd (createListener ex_os_garbled ex_srv0))) = 1
   \<and> fst (createListener ex_os_garbled ex_srv0) = None"
    by simp
  from 1 2 ex_unmarshal_garbled show ?thesis by simp
qed

text \<open>
  C3 as stated fails: a payload that parses and carries the requested address is not
  enough. On the system that has the payload but no open descriptor 3, acquisition
  calls fresh creation and returns the listener it made.
\<close>

theorem createListener_by_payload_counterexample:
  "Getenv ex_os_stale DefaultEnvVar = ex_payload
   \<and> json_Unmarshal ex_payload = Inr \<lparr>ldAddr = '':8080'', FD = 3, Name = ''tcp:[::]:8080->''\<rparr>
   \<and> Addr ex_srv0 = '':8080''
   \<and> fresh_creations (snd (snd (createListener ex_os_stale ex_srv0))) = 1
   \<and> Enter_newListener \<in> set (snd (snd (createListener ex_os_stale ex_srv0)))"
proof -
  have i: "importListener ex_os_stale ex_srv0 ex_payload =
      (Some (LibError ''file is not a listening stream socket''), ex_srv0\<lparr>Listener := None\<rparr>,
       [Enter_importListener ex_payload, E_NewFile 3 ''tcp:[::]:8080->'',
        E_FileListener (File ''tcp:[::]:8080->'' NotOpen),
        E_FileClose (File ''tcp:[::]:8080->'' NotOpen)])"
    by (simp add: importListener_def ex_unmarshal ex_srv0_def os_NewFile_def net_FileListener_def
          ex_os_stale_def ex_os_def)
  have c: "snd (snd (createListener ex_os_stale ex_srv0)) =
      [Enter_importListener ex_payload, E_NewFile 3 ''tcp:[::]:8080->'',
       E_FileListener (File ''tcp:[::]:8080->'' NotOpen),
       E_FileClose (File ''tcp:[::]:8080->'' NotOpen),
       E_Log (InfoImportFailed (LibError ''file is not a listening stream socket'')),
       Enter_newListener, E_Listen DefaultNetwork '':8080'', E_Log (InfoCreated '':8080'')]"
    using ex_getenv(2,4)
    by (simp add: createListener_def i createListener_fresh_def newListener_def)
       (simp add: ex_os_stale_def ex_os_def ex_srv0_def)
  show ?thesis
    unfolding c using ex_getenv(2) ex_unmarshal by (simp add: ex_srv0_def)
qed





subsection \<open>The handoff of the listener\<close>

lemma forkChild_started:
  assumes "E_StartProcess exec args attr \<in> set (snd (forkChild w srv km mpid))"
  shows "\<exists>f payload. createListenerFile w (Listener srv) = Inr f
           \<and> json_Marshal \<lparr>ldAddr = Addr srv, FD = 3, Name = fname f\<rparr> = Inr payload
           \<and> Executable w = Inr exec \<and> args = [exec]
           \<and> attr = \<lparr>Dir = filepath_Dir w exec,
                      Env = Environ w @ [DefaultEnvVar @ ''='' @ payload],
                      Files = [Stdin w, Stdout w, Stderr w, f]\<rparr>"
  using assms
  by (auto simp: forkChild_def Let_def split: sum.splits option.splits if_splits)

lemma createListenerFile_socket:
  assumes "createListenerFile w l = Inr f"
  shows "net_FileListener f = Inr (the l) \<and> l \<noteq> None"
  using assms
  by (auto simp: createListenerFile_def net_FileListener_def
        split: option.splits listener.splits sum.splits)

lemma createListener_imports:
  assumes "Getenv w DefaultEnvVar = env" "env \<noteq> []"
    and "importListener w srv env = (None, srv', evs)"
  shows "createListener w srv = (None, srv', evs @ [E_Log InfoImported])"
  using assms by (simp add: createListener_def)

text \<open>
  C4. Take a fork that reached \<^verbatim>\<open>os.StartProcess\<close> (so the listener is of a supported
  kind and its file could be made). The file of the listener is the fourth of the four
  files passed on, at index 3. In a new process that reads the variable the fork
  appended, has the passed files as its descriptors and requests the address the
  descriptor carries, acquisition parses the payload to the address, the slot 3 and the
  name of the file, opens descriptor 3 and returns a listener on the very socket of the
  parent, without creating a fresh one. The address the descriptor carries is the
  parent's address as JSON text holds it: the address itself whenever that is valid
  UTF-8.
\<close>

theorem handoff_round_trip:
  assumes fork: "E_StartProcess exec args attr \<in> set (snd (forkChild w srv km mpid))"
    and env: "DefaultEnvVar @ ''='' @ Getenv cw DefaultEnvVar = last (Env attr)"
    and fds: "fd_table cw = inherit_fds (Files attr)"
    and addr: "Addr csrv = toValidUTF8 (Addr srv)"
  shows "\<exists>f. createListenerFile w (Listener srv) = Inr f
           \<and> Files attr = [Stdin w, Stdout w, Stderr w, f] \<and> Files attr ! 3 = f
           \<and> json_Unmarshal (Getenv cw DefaultEnvVar)
               = Inr \<lparr>ldAddr = toValidUTF8 (Addr srv), FD = 3, Name = toValidUTF8 (fname f)\<rparr>
           \<and> createListener cw csrv =
               (None, csrv\<lparr>Listener := Listener srv\<rparr>,
                [Enter_importListener (Getenv cw DefaultEnvVar),
                 E_NewFile 3 (toValidUTF8 (fname f)),
                 E_FileListener (File (toValidUTF8 (fname f)) (fobj f)),
                 E_FileClose (File (toValidUTF8 (fname f)) (fobj f)),
                 E_Log InfoImported])
           \<and> fresh_creations (snd (snd (createListener cw csrv))) = 0
           \<and> (utf8_ValidString (Addr srv) \<longrightarrow> toValidUTF8 (Addr srv) = Addr srv)"
proof -
  from forkChild_started[OF fork] obtain f payload where
    f: "createListenerFile w (Listener srv) = Inr f"
    and m: "json_Marshal \<lparr>ldAddr = Addr srv, FD = 3, Name = fname f\<rparr> = Inr payload"
    and a: "attr = \<lparr>Dir = filepath_Dir w exec,
                      Env = Environ w @ [DefaultEnvVar @ ''='' @ payload],
                      Files = [Stdin w, Stdout w, Stderr w, f]\<rparr>"
    by blast
  let ?name = "toValidUTF8 (fname f)"
  from env have p: "Getenv cw DefaultEnvVar = payload"
    unfolding a by simp
  have ne: "payload \<noteq> []" using m by (rule payload_nonempty)
  have u: "json_Unmarshal payload
             = Inr \<lparr>ldAddr = toValidUTF8 (Addr srv), FD = 3, Name = ?name\<rparr>"
    using json_round_trip[OF m] by simp
  have nf: "os_NewFile cw 3 ?name = Some (File ?name (fobj f))"
    by (simp add: os_NewFile_def fds a inherit_fds_def)
  from createListenerFile_socket[OF f]
  have fl: "net_FileListener (File ?name (fobj f)) = Inr (the (Listener srv))"
    and some: "Some (the (Listener srv)) = Listener srv"
    by (auto simp: net_FileListener_def)
  have "importListener cw csrv payload =
          (None, csrv\<lparr>Listener := Some (the (Listener srv))\<rparr>,
           [Enter_importListener payload, E_NewFile 3 ?name,
            E_FileListener (File ?name (fobj f)), E_FileClose (File ?name (fobj f))])"
    using importListener_ok[OF u _ _ fl, of csrv cw] nf addr by simp
  from createListener_imports[OF p ne this]
  have c: "createListener cw csrv =
          (None, csrv\<lparr>Listener := Some (the (Listener srv))\<rparr>,
           [Enter_importListener payload, E_NewFile 3 ?name,
            E_FileListener (File ?name (fobj f)), E_FileClose (File ?name (fobj f)),
            E_Log InfoImported])"
    by simp
  have "fresh_creations (snd (snd (createListener cw csrv))) = 0"
    unfolding c by simp
  with f u c show ?thesis
    unfolding p some by (simp add: a toValidUTF8_valid)
qed

lemma ex_child_fds: "fd_table ex_os_child = inherit_fds (Files ex_attr)"
proof (rule ext)
  fix n :: nat
  consider "n = 0" | "n = 1" | "n = 2" | "n = 3" | "4 \<le> n" by linarith
  then show "fd_table ex_os_child n = inherit_fds (Files ex_attr) n"
    by cases
      (simp_all add: ex_os_child_def ex_os_stale_def ex_os_def inherit_fds_def ex_attr_def)
qed

theorem handoff_round_trip_witness:
  "E_StartProcess ''/srv/app'' [''/srv/app''] ex_attr
     \<in> set (snd (forkChild ex_os ex_srv False 4000))
   \<and> utf8_ValidString (Addr ex_srv) \<and> Addr ex_srv0 = Addr ex_srv
   \<and> fd_table ex_os_child 3 = Some (Socket TCP 7)
   \<and> Files ex_attr ! 3 = File ''tcp:[::]:8080->'' (Socket TCP 7)
   \<and> json_Unmarshal (Getenv ex_os_child DefaultEnvVar)
       = Inr \<lparr>ldAddr = '':8080'', FD = 3, Name = ''tcp:[::]:8080->''\<rparr>
   \<and> createListener ex_os_child ex_srv0 =
       (None, ex_srv0\<lparr>Listener := Some (TCPListener 7)\<rparr>,
        [Enter_importListener ex_payload, E_NewFile 3 ''tcp:[::]:8080->'',
         E_FileListener (File ''tcp:[::]:8080->'' (Socket TCP 7)),
         E_FileClose (File ''tcp:[::]:8080->'' (Socket TCP 7)), E_Log InfoImported])"
proof -
  have fork: "E_StartProcess ''/srv/app'' [''/srv/app''] ex_attr
                \<in> set (snd (forkChild ex_os ex_srv False 4000))"
    by (simp add: ex_forkChild_events)
  have valid: "utf8_ValidString (Addr ex_srv)"
    by (simp add: ex_srv_def)
  have env: "DefaultEnvVar @ ''='' @ Getenv ex_os_child DefaultEnvVar = last (Env ex_attr)"
    by (simp add: ex_getenv ex_attr_def)
  have addr: "Addr ex_srv0 = toValidUTF8 (Addr ex_srv)"
    by (simp add: ex_srv0_def ex_srv_def)
  have f: "createListenerFile ex_os (Listener ex_srv)
             = Inr (File ''tcp:[::]:8080->'' (Socket TCP 7))"
    by (simp add: createListenerFile_def ex_os_def ex_srv_def)
  have fd3: "fd_table ex_os_child 3 = Some (Socket TCP 7)"
    by (simp add: ex_os_child_def)
  from handoff_round_trip[OF fork env ex_child_fds addr] f fork valid fd3
  show ?thesis
    by (simp add: ex_getenv ex_srv_def ex_srv0_def)
qed

subsection \<open>Serving\<close>

text \<open>
  C9. A call of \<^verbatim>\<open>GracefulServeTLS\<close> with a server either ends in the fatal exit of
  a failed listener acquisition, before anything is served, or it launches the serving
  goroutine and the very next thing it does is to call \<^verbatim>\<open>Close\<close> on the caller's
  server; only then does it log the start and enter the signal handling, which begins
  by hooking the signals and goes on with the loop over the signals that reach the
  channel.
\<close>

theorem GracefulServeTLS_closes_after_launch:
  "case createListener w \<lparr>Addr = Server_Addr sv, PID = 0, Server = sv, Listener = None\<rparr> of
     (Some e, srv, evs) \<Rightarrow>
       GracefulServeTLS w sigs (Some sv) km certFile keyFile
         = (Done (Exited 1), evs @ [E_Log (FatalCreateListener e), E_Exit 1])
   | (None, srv, evs) \<Rightarrow>
       (\<exists>rest. snd (GracefulServeTLS w sigs (Some sv) km certFile keyFile)
          = evs @ [E_GoServeTLS sv (Listener srv) certFile keyFile, E_ServerClose sv,
                   E_Log (InfoStarted (Getpid w)), E_Notify sigHooks]
              @ snd (signalLoop (srv\<lparr>PID := Getpid w\<rparr>) km (Getpid w)
                       (fst (signal_Notify sigHooks sigs))) @ rest)"
proof -
  let ?srv0 = "\<lparr>Addr = Server_Addr sv, PID = 0, Server = sv, Listener = None\<rparr>"
  obtain r srv evs where c: "createListener w ?srv0 = (r, srv, evs)"
    by (cases "createListener w ?srv0")
  from createListener_frame[of w ?srv0] c have s: "Server srv = sv" by simp
  show ?thesis
  proof (cases r)
    case (Some e)
    with c show ?thesis by (simp add: GracefulServeTLS_def)
  next
    case None
    obtain o' evs' where l: "signalLoop (srv\<lparr>PID := Getpid w\<rparr>) km (Getpid w)
                               (fst (signal_Notify sigHooks sigs)) = (o', evs')"
      by (cases "signalLoop (srv\<lparr>PID := Getpid w\<rparr>) km (Getpid w)
                   (fst (signal_Notify sigHooks sigs))")
    with c None s show ?thesis
      by (auto simp: GracefulServeTLS_def handleSignals_def Let_def split_beta
            split: outcome.splits option.splits)
  qed
qed

lemma ex_createListener_fresh:
  "createListener ex_os ex_srv0 =
     (None, ex_srv0\<lparr>Listener := Some (TCPListener 7)\<rparr>,
      [Enter_newListener, E_Listen DefaultNetwork '':8080'', E_Log (InfoCreated '':8080'')])"
  by (simp add: createListener_def createListener_fresh_def newListener_def ex_os_def
        ex_srv0_def)

theorem GracefulServeTLS_closes_after_launch_witness:
  "\<exists>rest. snd (GracefulServeTLS ex_os [(SIGTERM, ex_os)] (Some ex_server) False
                  ''cert.pem'' ''key.pem'')
     = [Enter_newListener, E_Listen DefaultNetwork '':8080'', E_Log (InfoCreated '':8080''),
        E_GoServeTLS ex_server (Some (TCPListener 7)) ''cert.pem'' ''key.pem'',
        E_ServerClose ex_server, E_Log (InfoStarted 4000), E_Notify sigHooks]
       @ snd (signalLoop (ex_srv0\<lparr>Listener := Some (TCPListener 7), PID := 4000\<rparr>) False 4000
                [(SIGTERM, ex_os)]) @ rest"
proof -
  have s: "\<lparr>Addr = Server_Addr ex_server, PID = 0, Server = ex_server, Listener = None\<rparr> = ex_srv0"
    by (simp add: ex_srv0_def ex_server_def)
  have g: "Getpid ex_os = 4000" by (simp add: ex_os_def)
  from GracefulServeTLS_closes_after_launch[where w = ex_os and sv = ex_server
         and sigs = "[(SIGTERM, ex_os)]" and km = False and certFile = "''cert.pem''"
         and keyFile = "''key.pem''"]
  show ?thesis
    unfolding s ex_createListener_fresh g by (simp add: sigHooks_def)
qed

text \<open>
  C10. When \<^verbatim>\<open>GracefulServe\<close> returns, it returns a \<^verbatim>\<open>nil\<close> server handle and a
  \<^verbatim>\<open>nil\<close> error; and it returns only when a listener was acquired and the signal
  loop returned without an error.
\<close>

theorem GracefulServe_returns_nil:
  assumes "fst (GracefulServe w sigs server km) = Done (Returned r)"
  shows "r = (None, None)
     \<and> (\<exists>sv srv evs. server = Some sv
           \<and> createListener w \<lparr>Addr = Server_Addr sv, PID = 0, Server = sv, Listener = None\<rparr>
               = (None, srv, evs)
           \<and> fst (handleSignals (srv\<lparr>PID := Getpid w\<rparr>) km (Getpid w) sigs) = Returned None)"
proof (cases server)
  case None
  with assms show ?thesis by (simp add: GracefulServe_def)
next
  case (Some sv)
  let ?srv0 = "\<lparr>Addr = Server_Addr sv, PID = 0, Server = sv, Listener = None\<rparr>"
  obtain e srv evs where c: "createListener w ?srv0 = (e, srv, evs)"
    by (cases "createListener w ?srv0")
  obtain o' evs' where h: "handleSignals (srv\<lparr>PID := Getpid w\<rparr>) km (Getpid w) sigs = (o', evs')"
    by (cases "handleSignals (srv\<lparr>PID := Getpid w\<rparr>) km (Getpid w) sigs")
  from assms Some c h show ?thesis
    by (auto simp: GracefulServe_def Let_def split: option.splits outcome.splits)
qed

theorem GracefulServe_returns_nil_witness:
  "fst (GracefulServe ex_os [(SIGUSR2, ex_os), (SIGTERM, ex_os)] (Some ex_server) False)
     = Done (Returned (None, None))"
proof -
  have s: "\<lparr>Addr = Server_Addr ex_server, PID = 0, Server = ex_server, Listener = None\<rparr> = ex_srv0"
    by (simp add: ex_srv0_def ex_server_def)
  have h: "fst (handleSignals (ex_srv0\<lparr>Listener := Some (TCPListener 7), PID := Getpid ex_os\<rparr>)
                  False (Getpid ex_os) [(SIGUSR2, ex_os), (SIGTERM, ex_os)]) = Returned None"
    by (simp add: handleSignals_def sigHooks_def split_beta loop_usr loop_term shutDown_def
          Let_def)
       (simp add: ex_os_def)
  have "\<exists>r. fst (GracefulServe ex_os [(SIGUSR2, ex_os), (SIGTERM, ex_os)] (Some ex_server) False)
          = Done (Returned r)"
    using h
    by (cases "handleSignals (ex_srv0\<lparr>Listener := Some (TCPListener 7), PID := Getpid ex_os\<rparr>)
                  False (Getpid ex_os) [(SIGUSR2, ex_os), (SIGTERM, ex_os)]")
       (simp add: GracefulServe_def s ex_createListener_fresh Let_def)
  then obtain r where
    r: "fst (GracefulServe ex_os [(SIGUSR2, ex_os), (SIGTERM, ex_os)] (Some ex_server) False)
          = Done (Returned r)" ..
  from GracefulServe_returns_nil[OF r] r show ?thesis by simp
qed

subsection \<open>Further properties\<close>

text \<open>
  On an interrupt or a terminate signal the dispatcher forks nothing: it attempts the
  shutdown once and returns what the shutdown returned, an error or none, without
  handling any later signal.
\<close>

theorem terminate_transition:
  assumes "sig = SIGINT \<or> sig = SIGTERM"
  shows "signalLoop srv km mpid ((sig, w) # rest) =
           (Returned (ServerShutdown w (Server srv) (Now w + DefaultAwaitTimeout)),
            E_Log (InfoSignal mpid sig) # snd (shutDown w srv))
     \<and> fork_attempts (snd (signalLoop srv km mpid ((sig, w) # rest))) = 0
     \<and> shutdown_attempts (snd (signalLoop srv km mpid ((sig, w) # rest))) = 1"
proof -
  have "fst (shutDown w srv) = ServerShutdown w (Server srv) (Now w + DefaultAwaitTimeout)"
    by (simp add: shutDown_def Let_def)
  then show ?thesis
    by (simp add: loop_term[OF assms] shutDown_attempts)
qed

theorem terminate_transition_witness:
  "signalLoop ex_srv False 4000 [(SIGINT, ex_os), (SIGHUP, ex_os)] =
     (Returned None, E_Log (InfoSignal 4000 SIGINT) # snd (shutDown ex_os ex_srv))
   \<and> shutdown_attempts (snd (signalLoop ex_srv False 4000 [(SIGINT, ex_os), (SIGHUP, ex_os)])) = 1"
proof -
  have s: "SIGINT = SIGINT \<or> SIGINT = SIGTERM" by simp
  have r: "ServerShutdown ex_os (Server ex_srv) (Now ex_os + DefaultAwaitTimeout) = None"
    by (simp add: ex_os_def)
  from terminate_transition[OF s, of ex_srv False 4000 ex_os "[(SIGHUP, ex_os)]"] r
  show ?thesis by (simp add: shutDown_attempts)
qed

text \<open>
  A process started without a payload in the environment variable makes no import
  attempt: it creates a fresh listener, once, on the requested address, and logs the
  creation when it succeeded.
\<close>

theorem createListener_without_payload:
  assumes "Getenv w DefaultEnvVar = []"
  shows "createListener w srv =
           (case Listen w DefaultNetwork (Addr srv) of
              Inl err \<Rightarrow>
                (Some err, srv\<lparr>Listener := None\<rparr>,
                 [Enter_newListener, E_Listen DefaultNetwork (Addr srv)])
            | Inr s \<Rightarrow>
                (None, srv\<lparr>Listener := Some (TCPListener s)\<rparr>,
                 [Enter_newListener, E_Listen DefaultNetwork (Addr srv),
                  E_Log (InfoCreated (Addr srv))]))"
  using assms
  by (simp add: createListener_def createListener_fresh_def newListener_def split: sum.splits)

theorem createListener_without_payload_witness:
  "createListener ex_os ex_srv0 =
     (None, ex_srv0\<lparr>Listener := Some (TCPListener 7)\<rparr>,
      [Enter_newListener, E_Listen DefaultNetwork '':8080'', E_Log (InfoCreated '':8080'')])"
proof -
  have "Getenv ex_os DefaultEnvVar = []" by (simp add: ex_os_def)
  from createListener_without_payload[OF this, of ex_srv0] show ?thesis
    by (simp add: ex_os_def ex_srv0_def)
qed

text \<open>
  The two fatal ends of \<^verbatim>\<open>GracefulServe\<close>. When no listener can be acquired, the
  failure is logged and the process exits with status 1 before anything is served or any
  signal is hooked. When the signal loop returns an error (the shutdown failed or timed
  out), that error is logged and the process exits with status 1.
\<close>

theorem GracefulServe_fatal:
  "(\<forall>e srv evs.
      createListener w \<lparr>Addr = Server_Addr sv, PID = 0, Server = sv, Listener = None\<rparr>
        = (Some e, srv, evs) \<longrightarrow>
      GracefulServe w sigs (Some sv) km
        = (Done (Exited 1), evs @ [E_Log (FatalCreateListener e), E_Exit 1]))
   \<and> (\<forall>e srv evs evs'.
      createListener w \<lparr>Addr = Server_Addr sv, PID = 0, Server = sv, Listener = None\<rparr>
        = (None, srv, evs)
      \<and> handleSignals (srv\<lparr>PID := Getpid w\<rparr>) km (Getpid w) sigs = (Returned (Some e), evs') \<longrightarrow>
      fst (GracefulServe w sigs (Some sv) km) = Done (Exited 1)
      \<and> E_Log (FatalShutDown e) \<in> set (snd (GracefulServe w sigs (Some sv) km)))"
  by (auto simp: GracefulServe_def Let_def)

theorem GracefulServe_fatal_witness:
  "GracefulServe (ex_os\<lparr>Listen := (\<lambda>n a. Inl (LibError ''address already in use''))\<rparr>)
       [(SIGTERM, ex_os)] (Some ex_server) False
     = (Done (Exited 1),
        [Enter_newListener, E_Listen DefaultNetwork '':8080'',
         E_Log (FatalCreateListener (LibError ''address already in use'')), E_Exit 1])"
proof -
  let ?w = "ex_os\<lparr>Listen := (\<lambda>n a. Inl (LibError ''address already in use''))\<rparr>"
  have c: "createListener ?w
             \<lparr>Addr = Server_Addr ex_server, PID = 0, Server = ex_server, Listener = None\<rparr>
           = (Some (LibError ''address already in use''),
              \<lparr>Addr = '':8080'', PID = 0, Server = ex_server, Listener = None\<rparr>,
              [Enter_newListener, E_Listen DefaultNetwork '':8080''])"
    by (simp add: createListener_def createListener_fresh_def newListener_def ex_os_def
          ex_server_def)
  from GracefulServe_fatal[where w = ?w and sv = ex_server and sigs = "[(SIGTERM, ex_os)]"
         and km = False] c
  show ?thesis by simp
qed

text \<open>
  A listener of a kind other than TCP and unix-domain, or none, cannot be handed on:
  the fork returns the error of the unsupported listener and starts no process.
\<close>

theorem forkChild_unsupported_listener:
  assumes "Listener srv = None \<or> Listener srv = Some OtherListener"
  shows "forkChild w srv km mpid = (Some UnsupportedListener, [Enter_forkChild km mpid])"
  using assms by (auto simp: forkChild_def createListenerFile_def)

theorem forkChild_unsupported_listener_witness:
  "forkChild ex_os (ex_srv\<lparr>Listener := Some OtherListener\<rparr>) False 4000
     = (Some UnsupportedListener, [Enter_forkChild False 4000])"
proof -
  have "Listener (ex_srv\<lparr>Listener := Some OtherListener\<rparr>) = None
          \<or> Listener (ex_srv\<lparr>Listener := Some OtherListener\<rparr>) = Some OtherListener"
    by simp
  from forkChild_unsupported_listener[OF this] show ?thesis .
qed

end
